theory Spec2Isabelle
  imports Main "HOL-Library.Dlist" "HOL-Library.Word"
begin

section \<open>The unpivoted context (context\_unit.cpp)\<close>

subsection \<open>Scalars, operation tags and tables\<close>

text \<open>
  Modelled from the spec: the scalar type \<open>t_tscalar\<close>, declared in scalar.h, which is
  not part of the sources at hand. The spec describes a tagged value of one of a fixed
  set of primitive kinds, plus a distinguished "none" and a distinguished "clear"
  (unset) sentinel. Two primitive kinds are enough for the functions of the context.
\<close>

datatype t_tscalar =
    Scalar_int int
  | Scalar_str string
  | Scalar_none
  | Scalar_clear

text \<open>
  Modelled from the spec: \<open>t_tscalar::is_valid\<close> and \<open>mknone\<close>. A scalar is valid when
  it holds a stored value; \<open>mknone\<close> builds the "none" scalar. A value-initialised
  scalar, as in \<open>std::vector<t_tscalar> v(n)\<close>, holds nothing: it is the unset sentinel.
\<close>

fun is_valid :: "t_tscalar \<Rightarrow> bool" where
  "is_valid (Scalar_int _) = True"
| "is_valid (Scalar_str _) = True"
| "is_valid Scalar_none = False"
| "is_valid Scalar_clear = False"

definition mknone :: t_tscalar where
  "mknone = Scalar_none"

definition t_tscalar_default :: t_tscalar where
  "t_tscalar_default = Scalar_clear"

text \<open>
  Modelled from the spec: the enumeration \<open>t_op\<close> (declared in base.h). The spec's
  operation tags are INSERT, UPDATE and DELETE; the tag of a row is stored as a byte, so
  a row can also carry a byte that is none of them.
\<close>

datatype t_op = OP_INSERT | OP_UPDATE | OP_DELETE | OP_OTHER nat

text \<open>
  Modelled from the spec: \<open>t_symtable::get_interned_tscalar\<close>. Interning maps equal
  scalars to the same handle and distinct scalars to distinct handles; with scalars
  compared by value, a scalar is its own handle.
\<close>

definition get_interned_tscalar :: "t_tscalar \<Rightarrow> t_tscalar" where
  "get_interned_tscalar v = v"

text \<open>
  A \<open>t_data_table\<close> holds \<open>size()\<close> rows in columns of that length. The context reads
  the columns \<open>psp_pkey\<close> and \<open>psp_op\<close> of the flattened table at the same index, so
  the table is represented by its sequence of rows.
\<close>

record t_data_table_row =
  psp_pkey :: t_tscalar
  psp_op :: t_op

type_synonym t_data_table = "t_data_table_row list"

subsection \<open>Errors and loops\<close>

text \<open>
  \<open>PSP_COMPLAIN_AND_ABORT\<close> ends the process with a message. Indexing a
  \<open>std::vector\<close> past its end is undefined behaviour; the model records it as the
  result \<open>OutOfBounds\<close>, so that every \<open>Inr\<close> result is one the program computes
  without leaving its buffers.
\<close>

datatype error = Abort string | OutOfBounds

text \<open>A \<open>for\<close> loop over a sequence of indices or rows that stops at the first error.\<close>

fun for_loop :: "'i list \<Rightarrow> ('i \<Rightarrow> 's \<Rightarrow> error + 's) \<Rightarrow> 's \<Rightarrow> error + 's" where
  "for_loop [] body s = Inr s"
| "for_loop (i # is) body s =
     (case body i s of Inl e \<Rightarrow> Inl e | Inr s' \<Rightarrow> for_loop is body s')"

subsection \<open>The state of a context\<close>

text \<open>
  The master state \<open>t_gstate\<close> is reached through \<open>m_gstate\<close>; its implementation is not
  part of the sources at hand, so the context takes the four operations it calls as they
  are: the two sizes and the three overloads of \<open>read_column\<close>, each of which receives
  the buffer \<open>out_data\<close> by reference and returns it filled.
\<close>

record t_gstate =
  num_rows :: nat
  num_columns :: nat
  read_column_range :: "string \<Rightarrow> int \<Rightarrow> int \<Rightarrow> t_tscalar list \<Rightarrow> t_tscalar list"
  read_column_rows :: "string \<Rightarrow> nat list \<Rightarrow> t_tscalar list \<Rightarrow> t_tscalar list"
  read_column_pkeys :: "string \<Rightarrow> t_tscalar list \<Rightarrow> t_tscalar list \<Rightarrow> t_tscalar list"

text \<open>
  \<open>m_delta_pkeys\<close> is a \<open>tsl::hopscotch_set\<close>: a container of unique elements that is
  iterated in an order of its own. It is modelled by a duplicate-free list; no theorem
  below depends on the order. \<open>m_schema\<close> is represented by \<open>m_schema.columns()\<close>.
\<close>

record t_ctxunit =
  m_init :: bool
  m_has_delta :: bool
  m_rows_changed :: bool
  m_columns_changed :: bool
  m_delta_pkeys :: "t_tscalar dlist"
  m_schema :: "string list"
  m_gstate :: t_gstate

definition init :: "t_ctxunit \<Rightarrow> t_ctxunit" where
  "init s = s\<lparr>m_init := True\<rparr>"

definition step_begin :: "t_ctxunit \<Rightarrow> t_ctxunit" where
  "step_begin s =
     (if \<not> m_init s then s
      else s\<lparr>m_delta_pkeys := Dlist.empty,
             m_rows_changed := False,
             m_columns_changed := False\<rparr>)"

definition step_end :: "t_ctxunit \<Rightarrow> t_ctxunit" where
  "step_end s = s"

definition get_row_count :: "t_ctxunit \<Rightarrow> int" where
  "get_row_count s = int (num_rows (m_gstate s))"

definition get_column_count :: "t_ctxunit \<Rightarrow> int" where
  "get_column_count s = int (num_columns (m_gstate s))"

definition get_delta_pkeys :: "t_ctxunit \<Rightarrow> t_tscalar dlist" where
  "get_delta_pkeys s = m_delta_pkeys s"

definition reset :: "t_ctxunit \<Rightarrow> t_ctxunit" where
  "reset s = s\<lparr>m_has_delta := False\<rparr>"

definition add_delta_pkey :: "t_ctxunit \<Rightarrow> t_tscalar \<Rightarrow> t_ctxunit" where
  "add_delta_pkey s pkey = s\<lparr>m_delta_pkeys := Dlist.insert pkey (m_delta_pkeys s)\<rparr>"

definition has_deltas :: "t_ctxunit \<Rightarrow> bool" where
  "has_deltas s = m_has_delta s"

definition clear_deltas :: "t_ctxunit \<Rightarrow> t_ctxunit" where
  "clear_deltas s = s\<lparr>m_has_delta := False\<rparr>"

subsection \<open>notify\<close>

text \<open>
  The body of the loop of the richer \<open>notify\<close>: the loop state is the flag
  \<open>delete_encountered\<close> and the context. The \<open>switch\<close> has the cases \<open>OP_INSERT\<close> and
  \<open>OP_DELETE\<close>; its \<open>default\<close> aborts before the key of the row is added.
\<close>

definition notify_body ::
  "t_data_table_row \<Rightarrow> bool \<times> t_ctxunit \<Rightarrow> error + (bool \<times> t_ctxunit)" where
  "notify_body row st =
     (let delete_encountered = fst st; s = snd st;
          pkey = get_interned_tscalar (psp_pkey row);
          op = psp_op row
      in case op of
           OP_INSERT \<Rightarrow> Inr (delete_encountered, add_delta_pkey s pkey)
         | OP_DELETE \<Rightarrow> Inr (True, add_delta_pkey s pkey)
         | _ \<Rightarrow> Inl (Abort ''Unexpected OP''))"

definition notify ::
  "t_ctxunit \<Rightarrow> t_data_table \<Rightarrow> t_data_table \<Rightarrow> t_data_table \<Rightarrow> t_data_table \<Rightarrow>
   t_data_table \<Rightarrow> t_data_table \<Rightarrow> error + t_ctxunit" where
  "notify s flattened delta prev current transitions existed =
     (case for_loop flattened notify_body (False, s) of
        Inl e \<Rightarrow> Inl e
      | Inr (delete_encountered, s') \<Rightarrow>
          Inr (s'\<lparr>m_has_delta :=
                    (Dlist.length (m_delta_pkeys s') > 0 \<or> delete_encountered)\<rparr>))"

text \<open>The form for the first batch: the flag is set before the loop, the loop cannot fail.\<close>

definition notify_flattened :: "t_ctxunit \<Rightarrow> t_data_table \<Rightarrow> t_ctxunit" where
  "notify_flattened s flattened =
     fold (\<lambda>row s'. add_delta_pkey s' (get_interned_tscalar (psp_pkey row)))
       flattened (s\<lparr>m_has_delta := True\<rparr>)"

text \<open>The loop of both forms of \<open>notify\<close> without the \<open>switch\<close>: every key is added.\<close>

definition track_rows :: "t_data_table \<Rightarrow> t_ctxunit \<Rightarrow> t_ctxunit" where
  "track_rows flattened s =
     fold (\<lambda>row s'. add_delta_pkey s' (get_interned_tscalar (psp_pkey row))) flattened s"

subsection \<open>get\_data\<close>

record t_get_data_extents =
  m_srow :: int
  m_erow :: int
  m_scol :: int
  m_ecol :: int

text \<open>
  Modelled from the spec: \<open>sanitize_get_data_extents\<close> (get\_data\_extents.cpp is not
  part of the sources at hand). The spec: the half-open ranges are clamped against the
  current bounds; out-of-range or inverted ranges are narrowed, never an error. Each
  bound is clamped into \<open>[0, n]\<close>, and an end before its start is moved up to the start.
\<close>

definition sanitize_get_data_extents ::
  "int \<Rightarrow> int \<Rightarrow> int \<Rightarrow> int \<Rightarrow> int \<Rightarrow> int \<Rightarrow> t_get_data_extents" where
  "sanitize_get_data_extents nrows ncols start_row end_row start_col end_col =
     (let srow = max 0 (min start_row nrows);
          erow = max srow (max 0 (min end_row nrows));
          scol = max 0 (min start_col ncols);
          ecol = max scol (max 0 (min end_col ncols))
      in \<lparr>m_srow = srow, m_erow = erow, m_scol = scol, m_ecol = ecol\<rparr>)"

text \<open>
  \<open>operator[]\<close> of a \<open>std::vector\<close>, reading and writing. The index of the range form
  of \<open>get_data\<close> is a signed \<open>t_index\<close>; a negative one converts to an index past the
  end of any vector.
\<close>

definition vec_at :: "'a list \<Rightarrow> nat \<Rightarrow> error + 'a" where
  "vec_at xs i = (if i < length xs then Inr (xs ! i) else Inl OutOfBounds)"

definition vec_set :: "'a list \<Rightarrow> nat \<Rightarrow> 'a \<Rightarrow> error + 'a list" where
  "vec_set xs i v = (if i < length xs then Inr (xs[i := v]) else Inl OutOfBounds)"

definition vec_at_idx :: "'a list \<Rightarrow> int \<Rightarrow> error + 'a" where
  "vec_at_idx xs i = (if i < 0 then Inl OutOfBounds else vec_at xs (nat i))"

definition vec_set_idx :: "'a list \<Rightarrow> int \<Rightarrow> 'a \<Rightarrow> error + 'a list" where
  "vec_set_idx xs i v = (if i < 0 then Inl OutOfBounds else vec_set xs (nat i) v)"

text \<open>
  The body of the inner loop of \<open>get_data(start_row, end_row, start_col, end_col)\<close>:
  read the cell of \<open>out_data\<close>, replace a value that is not valid by \<open>none\<close>, store it in
  row-major position.
\<close>

definition get_data_cell ::
  "t_get_data_extents \<Rightarrow> int \<Rightarrow> t_tscalar list \<Rightarrow> int \<Rightarrow> int \<Rightarrow> t_tscalar list \<Rightarrow>
   error + t_tscalar list" where
  "get_data_cell ext stride out_data cidx ridx values =
     (case vec_at_idx out_data (ridx - m_srow ext) of
        Inl e \<Rightarrow> Inl e
      | Inr v \<Rightarrow>
          (let none = mknone;
               v = (if \<not> is_valid v then none else v)
           in vec_set_idx values ((ridx - m_srow ext) * stride + (cidx - m_scol ext)) v))"

text \<open>The body of the outer loop: one column, read through \<open>read_column\<close> with the
  start and end row as the caller gave them.\<close>

definition get_data_column ::
  "t_ctxunit \<Rightarrow> t_get_data_extents \<Rightarrow> int \<Rightarrow> int \<Rightarrow> int \<Rightarrow> int \<Rightarrow> int \<Rightarrow>
   t_tscalar list \<Rightarrow> error + t_tscalar list" where
  "get_data_column s ext n_rows stride start_row end_row cidx values =
     (case vec_at_idx (m_schema s) cidx of
        Inl e \<Rightarrow> Inl e
      | Inr column \<Rightarrow>
          (let out_data = read_column_range (m_gstate s) column start_row end_row
                            (replicate (nat n_rows) t_tscalar_default)
           in for_loop [m_srow ext .. m_erow ext - 1]
                (get_data_cell ext stride out_data cidx) values))"

definition get_data ::
  "t_ctxunit \<Rightarrow> int \<Rightarrow> int \<Rightarrow> int \<Rightarrow> int \<Rightarrow> error + t_tscalar list" where
  "get_data s start_row end_row start_col end_col =
     (let ctx_nrows = get_row_count s;
          ctx_ncols = get_column_count s;
          ext = sanitize_get_data_extents ctx_nrows ctx_ncols
                  start_row end_row start_col end_col;
          n_rows = m_erow ext - m_srow ext;
          stride = m_ecol ext - m_scol ext;
          values = replicate (nat (n_rows * stride)) t_tscalar_default
      in for_loop [m_scol ext .. m_ecol ext - 1]
           (get_data_column s ext n_rows stride start_row end_row) values)"

text \<open>
  The two sparse forms share their inner loop: indices are unsigned and start at 0.
\<close>

definition get_data_cell_u ::
  "nat \<Rightarrow> t_tscalar list \<Rightarrow> nat \<Rightarrow> nat \<Rightarrow> t_tscalar list \<Rightarrow> error + t_tscalar list" where
  "get_data_cell_u stride out_data cidx ridx values =
     (case vec_at out_data ridx of
        Inl e \<Rightarrow> Inl e
      | Inr v \<Rightarrow>
          (let none = mknone;
               v = (if \<not> is_valid v then none else v)
           in vec_set values (ridx * stride + cidx) v))"

definition get_data_rows_column ::
  "t_ctxunit \<Rightarrow> nat \<Rightarrow> nat list \<Rightarrow> nat \<Rightarrow> t_tscalar list \<Rightarrow> error + t_tscalar list" where
  "get_data_rows_column s stride rows cidx values =
     (case vec_at (m_schema s) cidx of
        Inl e \<Rightarrow> Inl e
      | Inr column \<Rightarrow>
          (let out_data = read_column_rows (m_gstate s) column rows
                            (replicate (length rows) t_tscalar_default)
           in for_loop [0 ..< length rows] (get_data_cell_u stride out_data cidx) values))"

definition get_data_rows :: "t_ctxunit \<Rightarrow> nat list \<Rightarrow> error + t_tscalar list" where
  "get_data_rows s rows =
     (let stride = nat (get_column_count s);
          values = replicate (length rows * stride) t_tscalar_default
      in for_loop [0 ..< stride] (get_data_rows_column s stride rows) values)"

definition get_data_pkeys_column ::
  "t_ctxunit \<Rightarrow> nat \<Rightarrow> t_tscalar list \<Rightarrow> nat \<Rightarrow> t_tscalar list \<Rightarrow> error + t_tscalar list" where
  "get_data_pkeys_column s stride pkeys cidx values =
     (case vec_at (m_schema s) cidx of
        Inl e \<Rightarrow> Inl e
      | Inr column \<Rightarrow>
          (let out_data = read_column_pkeys (m_gstate s) column pkeys
                            (replicate (length pkeys) t_tscalar_default)
           in for_loop [0 ..< length pkeys] (get_data_cell_u stride out_data cidx) values))"

definition get_data_pkeys :: "t_ctxunit \<Rightarrow> t_tscalar list \<Rightarrow> error + t_tscalar list" where
  "get_data_pkeys s pkeys =
     (let stride = nat (get_column_count s);
          values = replicate (length pkeys * stride) t_tscalar_default
      in for_loop [0 ..< stride] (get_data_pkeys_column s stride pkeys) values)"

subsection \<open>get\_row\_delta\<close>

text \<open>The value \<open>t_rowdelta(rows_changed, num_rows, data)\<close>.\<close>

record t_rowdelta =
  rd_rows_changed :: bool
  rd_num_rows :: nat
  rd_data :: "t_tscalar list"

text \<open>The copy of the set into \<open>pkey_vector\<close>.\<close>

definition pkey_vector :: "t_ctxunit \<Rightarrow> t_tscalar list" where
  "pkey_vector s = list_of_dlist (get_delta_pkeys s)"

definition get_row_delta :: "t_ctxunit \<Rightarrow> error + (t_rowdelta \<times> t_ctxunit)" where
  "get_row_delta s =
     (let rows_changed = m_rows_changed s;
          pkey_vector = pkey_vector s
      in case get_data_pkeys s pkey_vector of
           Inl e \<Rightarrow> Inl e
         | Inr data \<Rightarrow>
             Inr (\<lparr>rd_rows_changed = rows_changed,
                   rd_num_rows = length pkey_vector,
                   rd_data = data\<rparr>,
                  clear_deltas s))"

text \<open>The keys of the Delta Key Set, as a set.\<close>

definition delta_keys :: "t_ctxunit \<Rightarrow> t_tscalar set" where
  "delta_keys s = set (list_of_dlist (m_delta_pkeys s))"

text \<open>The tags the \<open>switch\<close> of \<open>notify\<close> has a case for.\<close>

definition recognised :: "t_data_table_row \<Rightarrow> bool" where
  "recognised row = (psp_op row = OP_INSERT \<or> psp_op row = OP_DELETE)"

text \<open>A context for the examples: initialised, nothing tracked, an empty master state.\<close>

definition gstate0 :: t_gstate where
  "gstate0 = \<lparr>num_rows = 0, num_columns = 0,
     read_column_range = (\<lambda>_ _ _ out_data. out_data),
     read_column_rows = (\<lambda>_ _ out_data. out_data),
     read_column_pkeys = (\<lambda>_ _ out_data. out_data)\<rparr>"

definition ctx0 :: t_ctxunit where
  "ctx0 = \<lparr>m_init = True, m_has_delta = False, m_rows_changed = False,
     m_columns_changed = False, m_delta_pkeys = Dlist.empty, m_schema = [],
     m_gstate = gstate0\<rparr>"

text \<open>
  A master state for the examples: two rows, the columns \<open>k\<close> and \<open>v\<close>; the value of
  the second row in \<open>v\<close> is unset. \<open>read_column\<close> returns the cells asked for; a
  cell outside the table, or of a key the table does not hold, is unset.
\<close>

definition table1 :: "string \<Rightarrow> int \<Rightarrow> t_tscalar" where
  "table1 column row =
     (if column = ''k'' \<and> row = 0 then Scalar_str ''A''
      else if column = ''k'' \<and> row = 1 then Scalar_str ''B''
      else if column = ''v'' \<and> row = 0 then Scalar_int 1
      else Scalar_clear)"

definition pkey_row1 :: "t_tscalar \<Rightarrow> int" where
  "pkey_row1 k = (if k = Scalar_str ''A'' then 0 else if k = Scalar_str ''B'' then 1 else - 1)"

definition gstate1 :: t_gstate where
  "gstate1 = \<lparr>num_rows = 2, num_columns = 2,
     read_column_range =
       (\<lambda>column a b out_data. if b - a \<le> 0 then out_data else map (table1 column) [a .. b - 1]),
     read_column_rows = (\<lambda>column rows out_data. map (\<lambda>r. table1 column (int r)) rows),
     read_column_pkeys = (\<lambda>column pkeys out_data. map (\<lambda>k. table1 column (pkey_row1 k)) pkeys)\<rparr>"

definition ctx1 :: t_ctxunit where
  "ctx1 = \<lparr>m_init = True, m_has_delta = False, m_rows_changed = False,
     m_columns_changed = False, m_delta_pkeys = Dlist.empty, m_schema = [''k'', ''v''],
     m_gstate = gstate1\<rparr>"

text \<open>The context of the example after a first batch that inserts the key \<open>A\<close>.\<close>

definition ctx1_tracked :: t_ctxunit where
  "ctx1_tracked = notify_flattened ctx1 [\<lparr>psp_pkey = Scalar_str ''A'', psp_op = OP_INSERT\<rparr>]"

text \<open>What a cell of a returned block may be: a stored value or \<open>none\<close>.\<close>

definition normalised :: "t_tscalar \<Rightarrow> bool" where
  "normalised v = (is_valid v \<or> v = mknone)"

text \<open>What \<open>get_data\<close> stores for a value it has read from the master state.\<close>

definition stored :: "t_tscalar \<Rightarrow> t_tscalar" where
  "stored v = (if \<not> is_valid v then mknone else v)"

text \<open>
  What the range form of \<open>get_data\<close> needs of the master state to stay inside
  \<open>out_data\<close>: for the start and end row of the call and each column of the schema,
  \<open>read_column\<close> returns a buffer with at least the sanitized number of rows.
\<close>

definition read_column_keeps_buffer :: "t_ctxunit \<Rightarrow> int \<Rightarrow> int \<Rightarrow> bool" where
  "read_column_keeps_buffer s start_row end_row =
     (let ext = sanitize_get_data_extents (get_row_count s) (get_column_count s)
                  start_row end_row 0 0;
          n = nat (m_erow ext - m_srow ext)
      in list_all
           (\<lambda>column. n \<le> length (read_column_range (m_gstate s) column start_row end_row
                                   (replicate n t_tscalar_default)))
           (m_schema s))"

text \<open>
  The same for the form of \<open>get_data\<close> that takes primary keys: for each column of the
  schema, \<open>read_column\<close> returns a buffer with at least as many cells as keys.
\<close>

definition read_column_pkeys_keeps_buffer :: "t_ctxunit \<Rightarrow> t_tscalar list \<Rightarrow> bool" where
  "read_column_pkeys_keeps_buffer s pkeys =
     list_all
       (\<lambda>column. length pkeys \<le> length (read_column_pkeys (m_gstate s) column pkeys
                                          (replicate (length pkeys) t_tscalar_default)))
       (m_schema s)"

text \<open>Two reads of the delta in a row; the result holds both deltas.\<close>

definition get_row_delta_twice ::
  "t_ctxunit \<Rightarrow> error + (t_rowdelta \<times> t_rowdelta \<times> t_ctxunit)" where
  "get_row_delta_twice s =
     (case get_row_delta s of
        Inl e \<Rightarrow> Inl e
      | Inr (rd1, s1) \<Rightarrow>
          (case get_row_delta s1 of
             Inl e \<Rightarrow> Inl e
           | Inr (rd2, s2) \<Rightarrow> Inr (rd1, rd2, s2)))"

text \<open>The \<open>notify\<close> calls of one update cycle, in order.\<close>

datatype notify_call = Notify_first t_data_table | Notify_update t_data_table

fun apply_notify :: "notify_call \<Rightarrow> t_ctxunit \<Rightarrow> error + t_ctxunit" where
  "apply_notify (Notify_first flattened) s = Inr (notify_flattened s flattened)"
| "apply_notify (Notify_update flattened) s = notify s flattened [] [] [] [] []"

fun call_keys :: "notify_call \<Rightarrow> t_tscalar set" where
  "call_keys (Notify_first flattened) =
     (\<lambda>row. get_interned_tscalar (psp_pkey row)) ` set flattened"
| "call_keys (Notify_update flattened) =
     (\<lambda>row. get_interned_tscalar (psp_pkey row)) ` set flattened"

section \<open>The WebSocket transport (websocket.js)\<close>

subsection \<open>Messages\<close>

text \<open>
  A text frame carries \<open>"ping"\<close>, \<open>"pong"\<close> or \<open>JSON.stringify\<close> of a message object; a
  binary frame carries an \<open>ArrayBuffer\<close>. Of a message object the transport reads
  \<open>id\<close>, \<open>binary_length\<close> and \<open>data.port_id\<close>; the rest travels as \<open>payload\<close>. A property
  that is absent (\<open>undefined\<close>) is \<open>None\<close>. Lengths and offsets are JavaScript numbers
  holding non-negative integers.
\<close>

record json_msg =
  msg_id :: "int option"
  binary_length :: "nat option"
  port_id :: "int option"
  payload :: string

datatype ws_data = Pong | Json json_msg | ArrayBuffer "8 word list"

datatype js_error = Error string | RangeError | SyntaxError | TypeError

text \<open>What \<open>_handle\<close> is called with: \<open>{data: msg}\<close>, \<open>{data: {id, data: binary}}\<close> or
  \<open>{data: {id, data: {port_id, delta: binary}}}\<close>.\<close>

datatype handled =
    Handle_msg json_msg
  | Handle_binary int "8 word list"
  | Handle_update int int "8 word list"

text \<open>Truthiness of an optional number: defined and not 0.\<close>

definition truthy :: "'a::zero option \<Rightarrow> bool" where
  "truthy x = (case x of None \<Rightarrow> False | Some n \<Rightarrow> n \<noteq> 0)"

subsection \<open>The client\<close>

text \<open>
  The fields of \<open>WebSocketClient\<close> that \<open>onmessage\<close> uses. \<open>total_chunk_length\<close> is a
  number; \<open>None\<close> stands for \<open>NaN\<close>, which adding \<open>undefined\<close> produces.
\<close>

record WebSocketClient =
  full_binary :: "8 word list option"
  total_chunk_length :: "nat option"
  pending_binary_length :: "nat option"
  pending_binary :: "int option"
  pending_port_id :: "int option"

definition WebSocketClient_new :: WebSocketClient where
  "WebSocketClient_new = \<lparr>full_binary = None, total_chunk_length = Some 0,
     pending_binary_length = Some 0, pending_binary = None, pending_port_id = None\<rparr>"

text \<open>
  \<open>target.set(source, offset)\<close> of a typed array copies \<open>source\<close> into \<open>target\<close> from
  \<open>offset\<close> on and throws a \<open>RangeError\<close> when it does not fit.
\<close>

definition typed_array_set ::
  "8 word list \<Rightarrow> 8 word list \<Rightarrow> nat \<Rightarrow> js_error + 8 word list" where
  "typed_array_set target source offset =
     (if offset + length source > length target then Inl RangeError
      else Inr (take offset target @ source @ drop (offset + length source) target))"

text \<open>
  The handler \<open>onmessage\<close>. Its result is the exception it throws or the calls of
  \<open>_handle\<close> it makes, and the client after it. In the branch for a pending binary the
  data of the frame is taken for a chunk whatever it is: of a text frame
  \<open>new Uint8Array\<close> makes an empty array and \<open>byteLength\<close> is \<open>undefined\<close>. In the
  other branch \<open>JSON.parse\<close> throws on a binary frame.
\<close>

definition onmessage ::
  "WebSocketClient \<Rightarrow> ws_data \<Rightarrow> (js_error + handled list) \<times> WebSocketClient" where
  "onmessage c msg =
     (if msg = Pong then (Inr [], c)
      else if truthy (pending_binary c) then
        (case full_binary c of
           None \<Rightarrow> (Inl TypeError, c)
         | Some target \<Rightarrow>
             (let source = (case msg of ArrayBuffer bytes \<Rightarrow> bytes | _ \<Rightarrow> []);
                  byteLength = (case msg of ArrayBuffer bytes \<Rightarrow> Some (length bytes) | _ \<Rightarrow> None);
                  offset = (case total_chunk_length c of None \<Rightarrow> 0 | Some t \<Rightarrow> t)
              in case typed_array_set target source offset of
                   Inl e \<Rightarrow> (Inl e, c)
                 | Inr buffer \<Rightarrow>
                     (let total = (case (total_chunk_length c, byteLength) of
                                     (Some t, Some n) \<Rightarrow> Some (t + n) | _ \<Rightarrow> None);
                          c1 = c\<lparr>full_binary := Some buffer, total_chunk_length := total\<rparr>
                      in if total \<noteq> None \<and> total = pending_binary_length c1 then
                           (Inr [case pending_port_id c1 of
                                   None \<Rightarrow> Handle_binary (the (pending_binary c1)) buffer
                                 | Some p \<Rightarrow> Handle_update (the (pending_binary c1)) p buffer],
                            c1\<lparr>pending_binary := None, pending_binary_length := None,
                               pending_port_id := None, total_chunk_length := Some 0,
                               full_binary := None\<rparr>)
                         else (Inr [], c1))))
      else
        (case msg of
           ArrayBuffer bytes \<Rightarrow> (Inl SyntaxError, c)
         | Json m \<Rightarrow>
             (if truthy (binary_length m) then
                (Inr [],
                 c\<lparr>pending_binary := msg_id m,
                   pending_binary_length := binary_length m,
                   pending_port_id :=
                     (case port_id m of None \<Rightarrow> pending_port_id c | Some p \<Rightarrow> Some p),
                   full_binary := Some (replicate (the (binary_length m)) 0)\<rparr>)
              else (Inr [Handle_msg m], c))
         | Pong \<Rightarrow> (Inr [], c)))"



text \<open>The frames of a connection, handled one after the other; an exception thrown by
  the handler of one frame does not keep the next frame from being handled.\<close>

fun receive ::
  "WebSocketClient \<Rightarrow> ws_data list \<Rightarrow> (js_error + handled list) list \<times> WebSocketClient" where
  "receive c [] = ([], c)"
| "receive c (msg # msgs) =
     (let (r, c') = onmessage c msg; (rs, c'') = receive c' msgs in (r # rs, c''))"

subsection \<open>The server\<close>

text \<open>
  Hosting. A cache is an object used as a dictionary from names to hosted tables or
  views; the model is the map of the names hosted. An object keeps the callbacks
  registered with \<open>on_delete\<close>; the callback of \<open>_host\<close> removes a name from a cache.
\<close>

datatype cache_kind = Tables | Views

record hosted =
  label :: string
  on_delete_callbacks :: "(cache_kind \<times> string) list"

text \<open>
  A socket of the connection library, as the manager uses it: its \<open>readyState\<close> and the
  frames given to \<open>send\<close>, in order. A request holds the socket it came in on (by
  number) and whether its message subscribes.
\<close>

record socket =
  ready_state :: nat
  outbox :: "ws_data list"

record request =
  req_ws :: nat
  req_subscribe :: bool

record WebSocketManager =
  tables :: "string \<rightharpoonup> hosted"
  views :: "string \<rightharpoonup> hosted"
  chunk_size :: nat
  requests :: "string \<rightharpoonup> request"
  requests_id_map :: "string \<rightharpoonup> int"

text \<open>
  What lives outside the manager: the socket objects, and the callbacks that
  \<open>setTimeout\<close> has queued and not yet run, oldest first. The only callback of the
  transport is a pending call \<open>_post_chunked(request, binary, start, end, length)\<close>.
\<close>

record timer =
  timer_ws :: nat
  timer_binary :: "8 word list"
  timer_start :: nat
  timer_end :: nat
  timer_length :: nat

record server =
  sockets :: "nat \<Rightarrow> socket"
  timers :: "timer list"

text \<open>The server after frames have been given to \<open>send\<close> of a socket; \<open>ws.send(data)\<close>.\<close>

definition sent_more :: "nat \<Rightarrow> ws_data list \<Rightarrow> server \<Rightarrow> server" where
  "sent_more ws frames srv =
     srv\<lparr>sockets := (sockets srv)
            (ws := (sockets srv ws)\<lparr>outbox := outbox (sockets srv ws) @ frames\<rparr>)\<rparr>"

definition ws_send :: "nat \<Rightarrow> ws_data \<Rightarrow> server \<Rightarrow> server" where
  "ws_send ws data srv = sent_more ws [data] srv"

text \<open>\<open>binary.slice(start, end)\<close> of an \<open>ArrayBuffer\<close>, for \<open>0 \<le> start\<close> and \<open>0 \<le> end\<close>.\<close>

definition slice_buffer :: "'a list \<Rightarrow> nat \<Rightarrow> nat \<Rightarrow> 'a list" where
  "slice_buffer binary start end' = drop start (take end' binary)"

text \<open>
  One call of \<open>_post_chunked\<close>: it sends one chunk and leaves the call for the rest with
  \<open>setTimeout\<close>, so whatever else runs before that timer can send on the same socket
  first (the parameters \<open>end\<close> and \<open>length\<close> are \<open>end'\<close> and \<open>len\<close> here).
  \<open>run_timer\<close> is the event loop running the oldest callback.
\<close>

definition post_chunked ::
  "WebSocketManager \<Rightarrow> nat \<Rightarrow> 8 word list \<Rightarrow> nat \<Rightarrow> nat \<Rightarrow> nat \<Rightarrow> server \<Rightarrow> server" where
  "post_chunked this request_ws binary start end' len srv =
     (if start < len then
        (let end' = start + chunk_size this;
             end' = (if end' > len then len else end');
             srv = ws_send request_ws (ArrayBuffer (slice_buffer binary start end')) srv;
             start = end'
         in srv\<lparr>timers := timers srv @
              [\<lparr>timer_ws = request_ws, timer_binary = binary, timer_start = start,
                timer_end = end', timer_length = len\<rparr>]\<rparr>)
      else srv)"

definition run_timer :: "WebSocketManager \<Rightarrow> server \<Rightarrow> server" where
  "run_timer this srv =
     (case timers srv of
        [] \<Rightarrow> srv
      | t # ts \<Rightarrow>
          post_chunked this (timer_ws t) (timer_binary t) (timer_start t) (timer_end t)
            (timer_length t) (srv\<lparr>timers := ts\<rparr>))"

text \<open>
  \<open>post(msg, transferable)\<close>: \<open>id'\<close> is the constant \<open>id\<close> of the source, which is
  \<open>msg.id\<close> on entry, the compound key of the request, and \<open>transferable\<close> is
  \<open>transferable[0]\<close> when a transferable is given. Reading \<open>req.ws\<close> of a request that
  is not there throws a \<open>TypeError\<close>. The result is the exception thrown, if any, and
  the manager and the server after the call.
\<close>

definition post ::
  "string \<Rightarrow> json_msg \<Rightarrow> 8 word list option \<Rightarrow> WebSocketManager \<times> server \<Rightarrow>
   (js_error + unit) \<times> WebSocketManager \<times> server" where
  "post id' msg transferable st =
     (let this = fst st; srv = snd st
      in case requests this id' of
           None \<Rightarrow> (Inl TypeError, this, srv)
         | Some req \<Rightarrow>
             if ready_state (sockets srv (req_ws req)) > 1 then
               (Inl (Error ''Connection closed''),
                this\<lparr>requests := (requests this)(id' := None)\<rparr>, srv)
             else
               (let msg = msg\<lparr>msg_id := requests_id_map this id'\<rparr>;
                    srv =
                      (case transferable of
                         Some binary_msg \<Rightarrow>
                           (let msg = msg\<lparr>binary_length := Some (length binary_msg)\<rparr>;
                                srv = ws_send (req_ws req) (Json msg) srv
                            in post_chunked this (req_ws req) binary_msg 0 (chunk_size this)
                                 (length binary_msg) srv)
                       | None \<Rightarrow> ws_send (req_ws req) (Json msg) srv);
                    this =
                      (if \<not> req_subscribe req then
                         this\<lparr>requests_id_map := (requests_id_map this)(id' := None),
                              requests := (requests this)(id' := None)\<rparr>
                       else this)
                in (Inr (), this, srv)))"

definition cache_of :: "cache_kind \<Rightarrow> WebSocketManager \<Rightarrow> string \<rightharpoonup> hosted" where
  "cache_of kind m = (case kind of Tables \<Rightarrow> tables m | Views \<Rightarrow> views m)"

definition cache_update ::
  "cache_kind \<Rightarrow> (string \<rightharpoonup> hosted) \<Rightarrow> WebSocketManager \<Rightarrow> WebSocketManager" where
  "cache_update kind cache m =
     (case kind of Tables \<Rightarrow> m\<lparr>tables := cache\<rparr> | Views \<Rightarrow> m\<lparr>views := cache\<rparr>)"

definition host ::
  "cache_kind \<Rightarrow> string \<Rightarrow> hosted \<Rightarrow> WebSocketManager \<Rightarrow>
   (js_error + unit) \<times> WebSocketManager" where
  "host kind name input m =
     (if cache_of kind m name \<noteq> None then
        (Inl (Error ([CHR 0x22] @ name @ [CHR 0x22] @ '' already exists'')), m)
      else
        (let input = input\<lparr>on_delete_callbacks := on_delete_callbacks input @ [(kind, name)]\<rparr>
         in (Inr (), cache_update kind ((cache_of kind m)(name \<mapsto> input)) m)))"

definition host_table ::
  "string \<Rightarrow> hosted \<Rightarrow> WebSocketManager \<Rightarrow> (js_error + unit) \<times> WebSocketManager" where
  "host_table name table m = host Tables name table m"

definition host_view ::
  "string \<Rightarrow> hosted \<Rightarrow> WebSocketManager \<Rightarrow> (js_error + unit) \<times> WebSocketManager" where
  "host_view name view m = host Views name view m"

definition eject_table :: "string \<Rightarrow> WebSocketManager \<Rightarrow> WebSocketManager" where
  "eject_table name m = m\<lparr>tables := (tables m)(name := None)\<rparr>"

definition eject_view :: "string \<Rightarrow> WebSocketManager \<Rightarrow> WebSocketManager" where
  "eject_view name m = m\<lparr>views := (views m)(name := None)\<rparr>"

text \<open>The manager as its constructor leaves it, and a table to host.\<close>

definition WebSocketManager_new :: WebSocketManager where
  "WebSocketManager_new = \<lparr>tables = Map.empty, views = Map.empty,
     chunk_size = 50 * 1000 * 1000, requests = Map.empty, requests_id_map = Map.empty\<rparr>"

text \<open>
  For the examples: a manager that sends chunks of two bytes and holds the request
  \<open>7/0\<close>, which came in on socket 0 under the id 7 and subscribes, and a server whose
  sockets are open and have sent nothing, with no timer queued.
\<close>

definition manager2 :: WebSocketManager where
  "manager2 = WebSocketManager_new\<lparr>chunk_size := 2,
     requests := [''7/0'' \<mapsto> \<lparr>req_ws = 0, req_subscribe = True\<rparr>],
     requests_id_map := [''7/0'' \<mapsto> 7]\<rparr>"

definition server0 :: server where
  "server0 = \<lparr>sockets = (\<lambda>_. \<lparr>ready_state = 1, outbox = []\<rparr>), timers = []\<rparr>"

definition arrow_msg :: json_msg where
  "arrow_msg = \<lparr>msg_id = None, binary_length = None, port_id = None, payload = ''arrow''\<rparr>"

text \<open>
  A binary of two chunks is posted, then an ordinary message on the same socket before
  the timer for the second chunk has run; then the timers run.
\<close>

definition interleaved :: server where
  "interleaved =
     (let (r1, this1, srv1) = post ''7/0'' arrow_msg (Some [1, 2, 3]) (manager2, server0);
          (r2, this2, srv2) = post ''7/0'' arrow_msg None (this1, srv1)
      in (run_timer this2 ^^ 2) srv2)"

definition superstore :: hosted where
  "superstore = \<lparr>label = ''superstore'', on_delete_callbacks = []\<rparr>"

section \<open>Properties of the context\<close>

lemma delta_keys_add_delta_pkey:
  "delta_keys (add_delta_pkey s k) = insert k (delta_keys s)"
  by (simp add: delta_keys_def add_delta_pkey_def)

lemma has_delta_add_delta_pkey:
  "m_has_delta (add_delta_pkey s k) = m_has_delta s"
  by (simp add: add_delta_pkey_def)

lemma delta_keys_track_rows:
  "delta_keys (track_rows fl s) =
     delta_keys s \<union> (\<lambda>row. get_interned_tscalar (psp_pkey row)) ` set fl"
  by (induction fl arbitrary: s) (auto simp: track_rows_def delta_keys_add_delta_pkey)

lemma has_delta_track_rows: "m_has_delta (track_rows fl s) = m_has_delta s"
  by (induction fl arbitrary: s) (auto simp: track_rows_def has_delta_add_delta_pkey)

lemma for_loop_notify_body:
  "for_loop fl notify_body (d, s) =
     (if list_all recognised fl
      then Inr (d \<or> (\<exists>row\<in>set fl. psp_op row = OP_DELETE), track_rows fl s)
      else Inl (Abort ''Unexpected OP''))"
proof (induction fl arbitrary: d s)
  case Nil
  then show ?case by (simp add: track_rows_def)
next
  case (Cons row fl)
  show ?case
  proof (cases "psp_op row")
    case OP_INSERT
    then show ?thesis
      using Cons.IH [of d "add_delta_pkey s (get_interned_tscalar (psp_pkey row))"]
      by (simp add: notify_body_def recognised_def track_rows_def)
  next
    case OP_DELETE
    then show ?thesis
      using Cons.IH [of True "add_delta_pkey s (get_interned_tscalar (psp_pkey row))"]
      by (simp add: notify_body_def recognised_def track_rows_def)
  next
    case OP_UPDATE
    then show ?thesis by (simp add: notify_body_def recognised_def)
  next
    case (OP_OTHER b)
    then show ?thesis by (simp add: notify_body_def recognised_def)
  qed
qed

subsection \<open>step\_begin\<close>

text \<open>
  Claim C10. On an initialised context \<open>step_begin\<close> empties the Delta Key Set and
  resets the rows-changed and columns-changed flags; it never writes the has-delta flag,
  so \<open>has_deltas\<close> answers the same before and after; on a context whose \<open>init\<close> has
  not run it changes nothing at all.
\<close>

theorem step_begin_frame:
  "(m_init s \<longrightarrow>
      m_delta_pkeys (step_begin s) = Dlist.empty \<and>
      \<not> m_rows_changed (step_begin s) \<and>
      \<not> m_columns_changed (step_begin s)) \<and>
   has_deltas (step_begin s) = has_deltas s \<and>
   (\<not> m_init s \<longrightarrow> step_begin s = s)"
  by (simp add: step_begin_def has_deltas_def)

theorem step_begin_frame_witness:
  "m_init (add_delta_pkey (ctx0\<lparr>m_has_delta := True, m_rows_changed := True\<rparr>) (Scalar_int 1)) \<and>
   delta_keys (add_delta_pkey (ctx0\<lparr>m_has_delta := True, m_rows_changed := True\<rparr>) (Scalar_int 1))
     = {Scalar_int 1} \<and>
   m_delta_pkeys (step_begin
     (add_delta_pkey (ctx0\<lparr>m_has_delta := True, m_rows_changed := True\<rparr>) (Scalar_int 1)))
     = Dlist.empty \<and>
   has_deltas (step_begin
     (add_delta_pkey (ctx0\<lparr>m_has_delta := True, m_rows_changed := True\<rparr>) (Scalar_int 1))) \<and>
   \<not> m_init (ctx0\<lparr>m_init := False, m_rows_changed := True\<rparr>) \<and>
   step_begin (ctx0\<lparr>m_init := False, m_rows_changed := True\<rparr>)
     = ctx0\<lparr>m_init := False, m_rows_changed := True\<rparr>"
  using step_begin_frame
    [of "add_delta_pkey (ctx0\<lparr>m_has_delta := True, m_rows_changed := True\<rparr>) (Scalar_int 1)"]
    step_begin_frame [of "ctx0\<lparr>m_init := False, m_rows_changed := True\<rparr>"]
  by (simp add: ctx0_def add_delta_pkey_def delta_keys_def has_deltas_def)


subsection \<open>Loops that fill a block\<close>

text \<open>
  Two facts about \<open>for_loop\<close>: it returns when each step does, and when each step
  writes its own cells of a buffer, and no two steps share a cell, the buffer holds at
  the end what each step wrote.
\<close>

lemma for_loop_succeeds:
  assumes "P s"
    and "\<And>x s. x \<in> set xs \<Longrightarrow> P s \<Longrightarrow> \<exists>s'. body x s = Inr s' \<and> P s'"
  shows "\<exists>s'. for_loop xs body s = Inr s' \<and> P s'"
  using assms
proof (induction xs arbitrary: s)
  case Nil
  then show ?case by simp
next
  case (Cons x xs)
  from Cons.prems obtain s1 where b: "body x s = Inr s1" and p: "P s1" by fastforce
  from Cons.IH [OF p] Cons.prems(2) obtain s' where "for_loop xs body s1 = Inr s'" "P s'"
    by fastforce
  with b show ?case by simp
qed

lemma for_loop_writes:
  fixes idx :: "'x \<Rightarrow> 'y \<Rightarrow> nat" and f :: "'x \<Rightarrow> 'y \<Rightarrow> 'a"
  assumes run: "for_loop xs body v = Inr v'"
    and body: "\<And>x v v'. x \<in> set xs \<Longrightarrow> body x v = Inr v' \<Longrightarrow>
        length v' = length v \<and> (\<forall>y\<in>Y. v' ! idx x y = f x y) \<and>
        (\<forall>j. j \<notin> idx x ` Y \<longrightarrow> v' ! j = v ! j)"
    and inj: "\<And>x x' y y'. x \<in> set xs \<Longrightarrow> x' \<in> set xs \<Longrightarrow> y \<in> Y \<Longrightarrow> y' \<in> Y \<Longrightarrow>
        idx x y = idx x' y' \<Longrightarrow> x = x' \<and> y = y'"
  shows "length v' = length v \<and> (\<forall>x\<in>set xs. \<forall>y\<in>Y. v' ! idx x y = f x y) \<and>
         (\<forall>j. j \<notin> (\<Union>x\<in>set xs. idx x ` Y) \<longrightarrow> v' ! j = v ! j)"
  using run body inj
proof (induction xs arbitrary: v)
  case Nil
  then show ?case by simp
next
  case (Cons x xs)
  from Cons.prems(1) obtain v1 where b: "body x v = Inr v1"
    and r: "for_loop xs body v1 = Inr v'"
    by (auto split: sum.splits)
  have step: "length v1 = length v" "\<forall>y\<in>Y. v1 ! idx x y = f x y"
    "\<forall>j. j \<notin> idx x ` Y \<longrightarrow> v1 ! j = v ! j"
    using Cons.prems(2) [OF _ b] by simp_all
  have ih: "length v' = length v1 \<and> (\<forall>x\<in>set xs. \<forall>y\<in>Y. v' ! idx x y = f x y) \<and>
         (\<forall>j. j \<notin> (\<Union>x\<in>set xs. idx x ` Y) \<longrightarrow> v' ! j = v1 ! j)"
  proof (rule Cons.IH [OF r])
    fix x' v v'
    assume "x' \<in> set xs" "body x' v = Inr v'"
    then show "length v' = length v \<and> (\<forall>y\<in>Y. v' ! idx x' y = f x' y) \<and>
        (\<forall>j. j \<notin> idx x' ` Y \<longrightarrow> v' ! j = v ! j)"
      using Cons.prems(2) [of x' v v'] by simp
  next
    fix x1 x2 y1 y2
    assume "x1 \<in> set xs" "x2 \<in> set xs" "y1 \<in> Y" "y2 \<in> Y" "idx x1 y1 = idx x2 y2"
    then show "x1 = x2 \<and> y1 = y2"
      using Cons.prems(3) [of x1 x2 y1 y2] by simp
  qed
  have here: "v' ! idx x y = f x y" if y: "y \<in> Y" for y
  proof (cases "idx x y \<in> (\<Union>x'\<in>set xs. idx x' ` Y)")
    case True
    then obtain x' y' where x': "x' \<in> set xs" "y' \<in> Y" "idx x y = idx x' y'" by auto
    then have "x = x' \<and> y = y'" using Cons.prems(3) [of x x' y y'] y by simp
    moreover have "v' ! idx x' y' = f x' y'" using ih x'(1,2) by blast
    ultimately show ?thesis by simp
  next
    case False
    then have "v' ! idx x y = v1 ! idx x y" using ih by blast
    then show ?thesis using step(2) y by simp
  qed
  have other: "v' ! j = v ! j" if "j \<notin> (\<Union>x'\<in>set (x # xs). idx x' ` Y)" for j
  proof -
    from that have "j \<notin> idx x ` Y" "j \<notin> (\<Union>x'\<in>set xs. idx x' ` Y)" by auto
    then show ?thesis using ih step(3) by simp
  qed
  show ?case
  proof (intro conjI ballI allI impI)
    show "length v' = length v" using ih step(1) by simp
  next
    fix x' y assume "x' \<in> set (x # xs)" and y: "y \<in> Y"
    then consider "x' = x" | "x' \<in> set xs" by auto
    then show "v' ! idx x' y = f x' y"
    proof cases
      case 1
      then show ?thesis using here [OF y] by simp
    next
      case 2
      then show ?thesis using ih y by blast
    qed
  next
    fix j assume "j \<notin> (\<Union>x'\<in>set (x # xs). idx x' ` Y)"
    then show "v' ! j = v ! j" by (rule other)
  qed
qed

text \<open>The sparse forms of \<open>get_data\<close>: what each cell of the block holds.\<close>

lemma cell_u_writes:
  assumes "get_data_cell_u stride od c r v = Inr v'"
  shows "length v' = length v \<and> v' ! (r * stride + c) = stored (od ! r) \<and>
         (\<forall>j. j \<noteq> r * stride + c \<longrightarrow> v' ! j = v ! j)"
  using assms
  by (auto simp: get_data_cell_u_def vec_at_def vec_set_def Let_def stored_def
      split: if_splits sum.splits)

lemma row_major_inj:
  fixes r c r' c' stride :: nat
  assumes "c < stride" "c' < stride" "r * stride + c = r' * stride + c'"
  shows "r = r' \<and> c = c'"
proof -
  have "(r * stride + c) div stride = r" "(r * stride + c) mod stride = c"
    using assms(1) by simp_all
  moreover have "(r' * stride + c') div stride = r'" "(r' * stride + c') mod stride = c'"
    using assms(2) by simp_all
  ultimately show ?thesis using assms(3) by simp
qed

lemma column_u_writes:
  assumes run: "for_loop [0..<n] (get_data_cell_u stride od c) v = Inr v'" and c: "c < stride"
  shows "length v' = length v \<and> (\<forall>r\<in>{0..<n}. v' ! (r * stride + c) = stored (od ! r)) \<and>
         (\<forall>j. j \<notin> (\<lambda>r. r * stride + c) ` {0..<n} \<longrightarrow> v' ! j = v ! j)"
proof -
  have "length v' = length v \<and>
      (\<forall>r\<in>set [0..<n]. \<forall>y\<in>{()}. v' ! (r * stride + c) = stored (od ! r)) \<and>
      (\<forall>j. j \<notin> (\<Union>r\<in>set [0..<n]. (\<lambda>y. r * stride + c) ` {()}) \<longrightarrow> v' ! j = v ! j)"
  proof (rule for_loop_writes [OF run, where idx = "\<lambda>r y. r * stride + c"
        and f = "\<lambda>r y. stored (od ! r)" and Y = "{()}"])
    fix r w w'
    assume "get_data_cell_u stride od c r w = Inr w'"
    from cell_u_writes [OF this]
    show "length w' = length w \<and> (\<forall>y\<in>{()}. w' ! (r * stride + c) = stored (od ! r)) \<and>
        (\<forall>j. j \<notin> (\<lambda>y. r * stride + c) ` {()} \<longrightarrow> w' ! j = w ! j)"
      by simp
  next
    fix r r' :: nat and y y' :: unit
    assume "r * stride + c = r' * stride + c"
    then show "r = r' \<and> y = y'" using row_major_inj [OF c c, of r r'] by simp
  qed
  then show ?thesis by auto
qed

lemma block_u_writes:
  assumes run: "for_loop [0..<stride] colbody v0 = Inr block"
    and unfold: "\<And>c v v'. colbody c v = Inr v' \<Longrightarrow>
        for_loop [0..<n] (get_data_cell_u stride (od c) c) v = Inr v'"
  shows "length block = length v0 \<and>
         (\<forall>c < stride. \<forall>r < n. block ! (r * stride + c) = stored (od c ! r))"
proof -
  have "length block = length v0 \<and>
      (\<forall>c\<in>set [0..<stride]. \<forall>r\<in>{0..<n}. block ! (r * stride + c) = stored (od c ! r)) \<and>
      (\<forall>j. j \<notin> (\<Union>c\<in>set [0..<stride]. (\<lambda>r. r * stride + c) ` {0..<n}) \<longrightarrow> block ! j = v0 ! j)"
  proof (rule for_loop_writes [OF run, where idx = "\<lambda>c r. r * stride + c"
        and f = "\<lambda>c r. stored (od c ! r)" and Y = "{0..<n}"])
    fix c w w'
    assume "c \<in> set [0..<stride]" and "colbody c w = Inr w'"
    then have "c < stride" and "for_loop [0..<n] (get_data_cell_u stride (od c) c) w = Inr w'"
      using unfold by simp_all
    from column_u_writes [OF this(2,1)]
    show "length w' = length w \<and> (\<forall>r\<in>{0..<n}. w' ! (r * stride + c) = stored (od c ! r)) \<and>
        (\<forall>j. j \<notin> (\<lambda>r. r * stride + c) ` {0..<n} \<longrightarrow> w' ! j = w ! j)" .
  next
    fix c c' r r'
    assume "c \<in> set [0..<stride]" "c' \<in> set [0..<stride]" "r * stride + c = r' * stride + c'"
    then show "c = c' \<and> r = r'" using row_major_inj [of c stride c' r r'] by simp
  qed
  then show ?thesis by simp
qed

lemma pkeys_column_unfold_od:
  assumes "get_data_pkeys_column s stride pkeys c v = Inr v'"
  shows "for_loop [0..<length pkeys]
           (get_data_cell_u stride
              (read_column_pkeys (m_gstate s) (m_schema s ! c) pkeys
                 (replicate (length pkeys) t_tscalar_default)) c) v = Inr v'"
proof (cases "vec_at (m_schema s) c")
  case (Inl e)
  with assms show ?thesis by (simp add: get_data_pkeys_column_def)
next
  case (Inr column)
  then have "column = m_schema s ! c" by (simp add: vec_at_def split: if_splits)
  with assms Inr show ?thesis by (simp add: get_data_pkeys_column_def Let_def)
qed

lemma rows_column_unfold_od:
  assumes "get_data_rows_column s stride rows c v = Inr v'"
  shows "for_loop [0..<length rows]
           (get_data_cell_u stride
              (read_column_rows (m_gstate s) (m_schema s ! c) rows
                 (replicate (length rows) t_tscalar_default)) c) v = Inr v'"
proof (cases "vec_at (m_schema s) c")
  case (Inl e)
  with assms show ?thesis by (simp add: get_data_rows_column_def)
next
  case (Inr column)
  then have "column = m_schema s ! c" by (simp add: vec_at_def split: if_splits)
  with assms Inr show ?thesis by (simp add: get_data_rows_column_def Let_def)
qed

lemma get_data_pkeys_cells:
  assumes "get_data_pkeys s pkeys = Inr block"
  shows "length block = length pkeys * num_columns (m_gstate s) \<and>
         (\<forall>c < num_columns (m_gstate s). \<forall>r < length pkeys.
            block ! (r * num_columns (m_gstate s) + c) =
              stored (read_column_pkeys (m_gstate s) (m_schema s ! c) pkeys
                        (replicate (length pkeys) t_tscalar_default) ! r))"
proof -
  have run: "for_loop [0..<num_columns (m_gstate s)]
          (get_data_pkeys_column s (num_columns (m_gstate s)) pkeys)
          (replicate (length pkeys * num_columns (m_gstate s)) t_tscalar_default) = Inr block"
    using assms by (simp add: get_data_pkeys_def get_column_count_def Let_def)
  from block_u_writes [OF run, where n = "length pkeys"
      and od = "\<lambda>c. read_column_pkeys (m_gstate s) (m_schema s ! c) pkeys
                        (replicate (length pkeys) t_tscalar_default)"]
    pkeys_column_unfold_od
  show ?thesis by simp
qed

lemma get_data_rows_cells:
  assumes "get_data_rows s rows = Inr block"
  shows "length block = length rows * num_columns (m_gstate s) \<and>
         (\<forall>c < num_columns (m_gstate s). \<forall>r < length rows.
            block ! (r * num_columns (m_gstate s) + c) =
              stored (read_column_rows (m_gstate s) (m_schema s ! c) rows
                        (replicate (length rows) t_tscalar_default) ! r))"
proof -
  have run: "for_loop [0..<num_columns (m_gstate s)]
          (get_data_rows_column s (num_columns (m_gstate s)) rows)
          (replicate (length rows * num_columns (m_gstate s)) t_tscalar_default) = Inr block"
    using assms by (simp add: get_data_rows_def get_column_count_def Let_def)
  from block_u_writes [OF run, where n = "length rows"
      and od = "\<lambda>c. read_column_rows (m_gstate s) (m_schema s ! c) rows
                        (replicate (length rows) t_tscalar_default)"]
    rows_column_unfold_od
  show ?thesis by simp
qed

text \<open>The range form of \<open>get_data\<close>: what each cell of the block holds.\<close>

lemma cell_writes:
  assumes "get_data_cell ext stride od c r v = Inr v'"
  shows "length v' = length v \<and>
         v' ! nat ((r - m_srow ext) * stride + (c - m_scol ext)) = stored (od ! nat (r - m_srow ext)) \<and>
         (\<forall>j. j \<noteq> nat ((r - m_srow ext) * stride + (c - m_scol ext)) \<longrightarrow> v' ! j = v ! j)"
  using assms
  by (auto simp: get_data_cell_def vec_at_idx_def vec_set_idx_def vec_at_def vec_set_def Let_def
      stored_def split: if_splits sum.splits)

lemma row_major_idx:
  fixes r c stride :: int
  assumes "0 \<le> r" "0 \<le> c" "0 \<le> stride"
  shows "nat (r * stride + c) = nat r * nat stride + nat c"
  using assms by (simp add: nat_add_distrib nat_mult_distrib)

lemma row_major_inj_idx:
  fixes r c r' c' stride srow scol :: int
  assumes "srow \<le> r" "srow \<le> r'" "scol \<le> c" "c < scol + stride" "scol \<le> c'" "c' < scol + stride"
    and eq: "nat ((r - srow) * stride + (c - scol)) = nat ((r' - srow) * stride + (c' - scol))"
  shows "r = r' \<and> c = c'"
proof -
  have pos: "0 \<le> stride" using assms by simp
  have "nat ((r - srow) * stride + (c - scol)) = nat (r - srow) * nat stride + nat (c - scol)"
    by (rule row_major_idx) (use assms pos in simp_all)
  moreover have "nat ((r' - srow) * stride + (c' - scol)) =
      nat (r' - srow) * nat stride + nat (c' - scol)"
    by (rule row_major_idx) (use assms pos in simp_all)
  ultimately have "nat (r - srow) * nat stride + nat (c - scol) =
      nat (r' - srow) * nat stride + nat (c' - scol)"
    using eq by simp
  moreover have "nat (c - scol) < nat stride" "nat (c' - scol) < nat stride"
    using assms by simp_all
  ultimately have "nat (r - srow) = nat (r' - srow) \<and> nat (c - scol) = nat (c' - scol)"
    using row_major_inj [of "nat (c - scol)" "nat stride" "nat (c' - scol)"
        "nat (r - srow)" "nat (r' - srow)"]
    by blast
  then show ?thesis using assms(1-6) by arith
qed

lemma column_writes:
  assumes run: "for_loop [m_srow ext .. m_erow ext - 1] (get_data_cell ext stride od c) v = Inr v'"
    and c: "m_scol ext \<le> c" "c < m_scol ext + stride"
  shows "length v' = length v \<and>
         (\<forall>r\<in>{m_srow ext .. m_erow ext - 1}.
            v' ! nat ((r - m_srow ext) * stride + (c - m_scol ext)) =
              stored (od ! nat (r - m_srow ext))) \<and>
         (\<forall>j. j \<notin> (\<lambda>r. nat ((r - m_srow ext) * stride + (c - m_scol ext))) `
                  {m_srow ext .. m_erow ext - 1} \<longrightarrow> v' ! j = v ! j)"
proof -
  have "length v' = length v \<and>
      (\<forall>r\<in>set [m_srow ext .. m_erow ext - 1]. \<forall>y\<in>{()}.
          v' ! nat ((r - m_srow ext) * stride + (c - m_scol ext)) =
            stored (od ! nat (r - m_srow ext))) \<and>
      (\<forall>j. j \<notin> (\<Union>r\<in>set [m_srow ext .. m_erow ext - 1].
                 (\<lambda>y. nat ((r - m_srow ext) * stride + (c - m_scol ext))) ` {()})
            \<longrightarrow> v' ! j = v ! j)"
  proof (rule for_loop_writes [OF run,
        where idx = "\<lambda>r y. nat ((r - m_srow ext) * stride + (c - m_scol ext))"
        and f = "\<lambda>r y. stored (od ! nat (r - m_srow ext))" and Y = "{()}"])
    fix r w w'
    assume "get_data_cell ext stride od c r w = Inr w'"
    from cell_writes [OF this]
    show "length w' = length w \<and>
        (\<forall>y\<in>{()}. w' ! nat ((r - m_srow ext) * stride + (c - m_scol ext)) =
                     stored (od ! nat (r - m_srow ext))) \<and>
        (\<forall>j. j \<notin> (\<lambda>y. nat ((r - m_srow ext) * stride + (c - m_scol ext))) ` {()}
              \<longrightarrow> w' ! j = w ! j)"
      by simp
  next
    fix r r' :: int and y y' :: unit
    assume "r \<in> set [m_srow ext .. m_erow ext - 1]" "r' \<in> set [m_srow ext .. m_erow ext - 1]"
      and "nat ((r - m_srow ext) * stride + (c - m_scol ext)) =
           nat ((r' - m_srow ext) * stride + (c - m_scol ext))"
    then show "r = r' \<and> y = y'"
      using row_major_inj_idx [of "m_srow ext" r r' "m_scol ext" c stride c] c by simp
  qed
  then show ?thesis by auto
qed

lemma column_unfold_od:
  assumes "get_data_column s ext n stride a b c v = Inr v'"
  shows "for_loop [m_srow ext .. m_erow ext - 1]
           (get_data_cell ext stride
              (read_column_range (m_gstate s) (m_schema s ! nat c) a b
                 (replicate (nat n) t_tscalar_default)) c) v = Inr v'"
proof (cases "vec_at_idx (m_schema s) c")
  case (Inl e)
  with assms show ?thesis by (simp add: get_data_column_def)
next
  case (Inr column)
  then have "column = m_schema s ! nat c"
    by (simp add: vec_at_idx_def vec_at_def split: if_splits)
  with assms Inr show ?thesis by (simp add: get_data_column_def Let_def)
qed

lemma sanitize_bounds:
  assumes "0 \<le> nrows" and "0 \<le> ncols"
  shows "0 \<le> m_srow (sanitize_get_data_extents nrows ncols a b c d) \<and>
         m_srow (sanitize_get_data_extents nrows ncols a b c d)
           \<le> m_erow (sanitize_get_data_extents nrows ncols a b c d) \<and>
         m_erow (sanitize_get_data_extents nrows ncols a b c d) \<le> nrows \<and>
         0 \<le> m_scol (sanitize_get_data_extents nrows ncols a b c d) \<and>
         m_scol (sanitize_get_data_extents nrows ncols a b c d)
           \<le> m_ecol (sanitize_get_data_extents nrows ncols a b c d) \<and>
         m_ecol (sanitize_get_data_extents nrows ncols a b c d) \<le> ncols"
  using assms by (simp add: sanitize_get_data_extents_def Let_def)

lemma get_data_unfold:
  "get_data s a b c d =
     for_loop [m_scol (sanitize_get_data_extents (get_row_count s) (get_column_count s) a b c d) ..
               m_ecol (sanitize_get_data_extents (get_row_count s) (get_column_count s) a b c d) - 1]
       (get_data_column s (sanitize_get_data_extents (get_row_count s) (get_column_count s) a b c d)
          (m_erow (sanitize_get_data_extents (get_row_count s) (get_column_count s) a b c d)
            - m_srow (sanitize_get_data_extents (get_row_count s) (get_column_count s) a b c d))
          (m_ecol (sanitize_get_data_extents (get_row_count s) (get_column_count s) a b c d)
            - m_scol (sanitize_get_data_extents (get_row_count s) (get_column_count s) a b c d))
          a b)
       (replicate
          (nat ((m_erow (sanitize_get_data_extents (get_row_count s) (get_column_count s) a b c d)
                 - m_srow (sanitize_get_data_extents (get_row_count s) (get_column_count s) a b c d))
              * (m_ecol (sanitize_get_data_extents (get_row_count s) (get_column_count s) a b c d)
                 - m_scol (sanitize_get_data_extents (get_row_count s) (get_column_count s) a b c d))))
          t_tscalar_default)"
  by (simp add: get_data_def Let_def)

lemma get_data_cells:
  assumes "get_data s a b c d = Inr block"
    and ext: "ext = sanitize_get_data_extents (get_row_count s) (get_column_count s) a b c d"
    and n: "n = nat (m_erow ext - m_srow ext)" and stride: "stride = nat (m_ecol ext - m_scol ext)"
  shows "length block = n * stride \<and>
         (\<forall>ci < stride. \<forall>ri < n.
            block ! (ri * stride + ci) =
              stored (read_column_range (m_gstate s) (m_schema s ! (nat (m_scol ext) + ci)) a b
                        (replicate n t_tscalar_default) ! ri))"
proof -
  define ni where "ni = m_erow ext - m_srow ext"
  define si where "si = m_ecol ext - m_scol ext"
  have bnd: "0 \<le> m_srow ext" "m_srow ext \<le> m_erow ext" "0 \<le> m_scol ext"
    "m_scol ext \<le> m_ecol ext"
    using sanitize_bounds [of "get_row_count s" "get_column_count s" a b c d]
    by (simp_all add: ext get_row_count_def get_column_count_def)
  have nn: "n = nat ni" "stride = nat si" "0 \<le> ni" "0 \<le> si"
    using bnd by (simp_all add: n stride ni_def si_def)
  have run: "for_loop [m_scol ext .. m_ecol ext - 1] (get_data_column s ext ni si a b)
               (replicate (nat (ni * si)) t_tscalar_default) = Inr block"
    using assms(1) unfolding get_data_unfold ext ni_def si_def .
  have w: "length block = length (replicate (nat (ni * si)) t_tscalar_default) \<and>
      (\<forall>x\<in>set [m_scol ext .. m_ecol ext - 1]. \<forall>r\<in>{m_srow ext .. m_erow ext - 1}.
          block ! nat ((r - m_srow ext) * si + (x - m_scol ext)) =
            stored (read_column_range (m_gstate s) (m_schema s ! nat x) a b
                      (replicate (nat ni) t_tscalar_default) ! nat (r - m_srow ext))) \<and>
      (\<forall>j. j \<notin> (\<Union>x\<in>set [m_scol ext .. m_ecol ext - 1].
                 (\<lambda>r. nat ((r - m_srow ext) * si + (x - m_scol ext))) `
                   {m_srow ext .. m_erow ext - 1})
            \<longrightarrow> block ! j = replicate (nat (ni * si)) t_tscalar_default ! j)"
  proof (rule for_loop_writes [OF run,
        where idx = "\<lambda>x r. nat ((r - m_srow ext) * si + (x - m_scol ext))"
        and f = "\<lambda>x r. stored (read_column_range (m_gstate s) (m_schema s ! nat x) a b
                      (replicate (nat ni) t_tscalar_default) ! nat (r - m_srow ext))"
        and Y = "{m_srow ext .. m_erow ext - 1}"])
    fix x w w'
    assume x: "x \<in> set [m_scol ext .. m_ecol ext - 1]"
      and "get_data_column s ext ni si a b x w = Inr w'"
    from column_unfold_od [OF this(2)] have
      "for_loop [m_srow ext .. m_erow ext - 1]
         (get_data_cell ext si
            (read_column_range (m_gstate s) (m_schema s ! nat x) a b
               (replicate (nat ni) t_tscalar_default)) x) w = Inr w'" .
    moreover have "m_scol ext \<le> x" "x < m_scol ext + si" using x by (simp_all add: si_def)
    ultimately show "length w' = length w \<and>
        (\<forall>r\<in>{m_srow ext .. m_erow ext - 1}.
            w' ! nat ((r - m_srow ext) * si + (x - m_scol ext)) =
              stored (read_column_range (m_gstate s) (m_schema s ! nat x) a b
                        (replicate (nat ni) t_tscalar_default) ! nat (r - m_srow ext))) \<and>
        (\<forall>j. j \<notin> (\<lambda>r. nat ((r - m_srow ext) * si + (x - m_scol ext))) `
                 {m_srow ext .. m_erow ext - 1} \<longrightarrow> w' ! j = w ! j)"
      by (rule column_writes)
  next
    fix x x' r r'
    assume "x \<in> set [m_scol ext .. m_ecol ext - 1]" "x' \<in> set [m_scol ext .. m_ecol ext - 1]"
      "r \<in> {m_srow ext .. m_erow ext - 1}" "r' \<in> {m_srow ext .. m_erow ext - 1}"
      "nat ((r - m_srow ext) * si + (x - m_scol ext)) =
       nat ((r' - m_srow ext) * si + (x' - m_scol ext))"
    then show "x = x' \<and> r = r'"
      using row_major_inj_idx [of "m_srow ext" r r' "m_scol ext" x si x']
      by (simp add: si_def)
  qed
  have len: "length block = n * stride"
    using w nn by (simp add: nat_mult_distrib)
  have cells: "block ! (ri * stride + ci) =
      stored (read_column_range (m_gstate s) (m_schema s ! (nat (m_scol ext) + ci)) a b
                (replicate n t_tscalar_default) ! ri)"
    if ci: "ci < stride" and ri: "ri < n" for ci ri
  proof -
    have x: "m_scol ext + int ci \<in> set [m_scol ext .. m_ecol ext - 1]"
      using ci by (simp add: stride)
    have r: "m_srow ext + int ri \<in> {m_srow ext .. m_erow ext - 1}"
      using ri by (simp add: n)
    from w x r have "block ! nat ((m_srow ext + int ri - m_srow ext) * si
                                  + (m_scol ext + int ci - m_scol ext)) =
        stored (read_column_range (m_gstate s) (m_schema s ! nat (m_scol ext + int ci)) a b
                  (replicate (nat ni) t_tscalar_default) ! nat (m_srow ext + int ri - m_srow ext))"
      by blast
    moreover have "nat (int ri * si + int ci) = ri * stride + ci"
      using nn by (simp add: nat_add_distrib nat_mult_distrib)
    moreover have "nat (m_scol ext + int ci) = nat (m_scol ext) + ci"
      using bnd by (simp add: nat_add_distrib)
    ultimately show ?thesis by (simp add: nn)
  qed
  show ?thesis using len cells by blast
qed

lemma block_cells_normalised:
  assumes len: "length block = n * stride"
    and cells: "\<forall>c < stride. \<forall>r < n. block ! (r * stride + c) = stored (cell c r)"
  shows "\<forall>v\<in>set block. normalised v \<and> v \<noteq> Scalar_clear"
proof
  fix v assume "v \<in> set block"
  then obtain j where j: "j < length block" and v: "v = block ! j"
    by (auto simp: in_set_conv_nth)
  from j len have pos: "0 < stride" by (cases stride) auto
  have c: "j mod stride < stride" using pos by simp
  have r: "j div stride < n" using j len pos by (simp add: less_mult_imp_div_less)
  have "block ! (j div stride * stride + j mod stride) = stored (cell (j mod stride) (j div stride))"
    using cells c r by blast
  then have "v = stored (cell (j mod stride) (j div stride))" using v by simp
  then show "normalised v \<and> v \<noteq> Scalar_clear"
    by (cases "cell (j mod stride) (j div stride)")
       (simp_all add: stored_def normalised_def mknone_def)
qed

text \<open>The range form of \<open>get_data\<close> stays inside its buffers.\<close>

lemma row_major_index_bound:
  fixes r c n stride :: int
  assumes "0 \<le> r" "r < n" "0 \<le> c" "c < stride"
  shows "0 \<le> r * stride + c \<and> r * stride + c < n * stride"
proof -
  have "r * stride + c < r * stride + stride" using assms by simp
  also have "\<dots> = (r + 1) * stride" by (simp add: algebra_simps)
  also have "\<dots> \<le> n * stride" using assms by (intro mult_right_mono) simp_all
  finally have "r * stride + c < n * stride" .
  moreover have "0 \<le> r * stride" using assms by simp
  ultimately show ?thesis using assms by simp
qed

lemma cell_succeeds:
  assumes r: "m_srow ext \<le> r" "r < m_erow ext"
    and c: "m_scol ext \<le> c" "c < m_scol ext + stride"
    and od: "nat (m_erow ext - m_srow ext) \<le> length od"
    and len: "length values = nat ((m_erow ext - m_srow ext) * stride)"
  shows "\<exists>values'. get_data_cell ext stride od c r values = Inr values' \<and>
           length values' = length values"
proof -
  have idx: "0 \<le> (r - m_srow ext) * stride + (c - m_scol ext) \<and>
             (r - m_srow ext) * stride + (c - m_scol ext) < (m_erow ext - m_srow ext) * stride"
    by (rule row_major_index_bound) (use r c in simp_all)
  have rd: "vec_at_idx od (r - m_srow ext) = Inr (od ! nat (r - m_srow ext))"
    using r od by (simp add: vec_at_idx_def vec_at_def)
  have "nat ((r - m_srow ext) * stride + (c - m_scol ext)) < length values"
    using idx len by simp
  then show ?thesis using idx rd
    by (simp add: get_data_cell_def vec_set_idx_def vec_set_def Let_def)
qed

lemma column_succeeds:
  assumes c: "m_scol ext \<le> c" "c < m_scol ext + stride" "0 \<le> m_scol ext"
    and schema: "nat (m_scol ext + stride) \<le> length (m_schema s)"
    and fills: "list_all
        (\<lambda>column. nat n \<le> length (read_column_range (m_gstate s) column a b
                                   (replicate (nat n) t_tscalar_default)))
        (m_schema s)"
    and n: "n = m_erow ext - m_srow ext"
    and len: "length values = nat (n * stride)"
  shows "\<exists>values'. get_data_column s ext n stride a b c values = Inr values' \<and>
           length values' = length values"
proof -
  have in_schema: "nat c < length (m_schema s)" using c schema by simp
  have col: "vec_at_idx (m_schema s) c = Inr (m_schema s ! nat c)"
    using c in_schema by (simp add: vec_at_idx_def vec_at_def)
  define od where "od = read_column_range (m_gstate s) (m_schema s ! nat c) a b
                          (replicate (nat n) t_tscalar_default)"
  have "m_schema s ! nat c \<in> set (m_schema s)" using in_schema by simp
  then have od: "nat (m_erow ext - m_srow ext) \<le> length od"
    using fills by (simp add: od_def n list_all_iff)
  have "\<exists>values'. for_loop [m_srow ext .. m_erow ext - 1] (get_data_cell ext stride od c) values
            = Inr values' \<and> length values' = length values"
  proof (rule for_loop_succeeds [where P = "\<lambda>v. length v = length values"])
    fix r and v :: "t_tscalar list"
    assume "r \<in> set [m_srow ext .. m_erow ext - 1]" and lv: "length v = length values"
    then have r: "m_srow ext \<le> r" "r < m_erow ext" by simp_all
    have "\<exists>v'. get_data_cell ext stride od c r v = Inr v' \<and> length v' = length v"
      by (rule cell_succeeds [OF r c(1,2) od]) (simp add: lv len n)
    then show "\<exists>v'. get_data_cell ext stride od c r v = Inr v' \<and> length v' = length values"
      using lv by simp
  qed simp
  then show ?thesis by (simp add: get_data_column_def col od_def Let_def)
qed

lemma get_data_succeeds:
  assumes schema: "num_columns (m_gstate s) \<le> length (m_schema s)"
    and fills: "read_column_keeps_buffer s a b"
  shows "\<exists>block. get_data s a b c d = Inr block \<and>
           int (length block) =
             (m_erow (sanitize_get_data_extents (get_row_count s) (get_column_count s) a b c d)
               - m_srow (sanitize_get_data_extents (get_row_count s) (get_column_count s) a b c d))
           * (m_ecol (sanitize_get_data_extents (get_row_count s) (get_column_count s) a b c d)
               - m_scol (sanitize_get_data_extents (get_row_count s) (get_column_count s) a b c d))"
proof -
  define ext where "ext = sanitize_get_data_extents (get_row_count s) (get_column_count s) a b c d"
  define n where "n = m_erow ext - m_srow ext"
  define stride where "stride = m_ecol ext - m_scol ext"
  define v0 where "v0 = replicate (nat (n * stride)) t_tscalar_default"
  have b: "0 \<le> m_srow ext" "m_srow ext \<le> m_erow ext" "0 \<le> m_scol ext"
    "m_scol ext \<le> m_ecol ext" "m_ecol ext \<le> int (num_columns (m_gstate s))"
    using sanitize_bounds [of "get_row_count s" "get_column_count s" a b c d]
    by (simp_all add: ext_def get_row_count_def get_column_count_def)
  have rows: "m_erow (sanitize_get_data_extents (get_row_count s) (get_column_count s) a b 0 0)
      - m_srow (sanitize_get_data_extents (get_row_count s) (get_column_count s) a b 0 0) = n"
    by (simp add: n_def ext_def sanitize_get_data_extents_def Let_def)
  have fills': "list_all
        (\<lambda>column. nat n \<le> length (read_column_range (m_gstate s) column a b
                                   (replicate (nat n) t_tscalar_default)))
        (m_schema s)"
    using fills unfolding read_column_keeps_buffer_def Let_def rows .
  have eq: "get_data s a b c d =
      for_loop [m_scol ext .. m_ecol ext - 1] (get_data_column s ext n stride a b) v0"
    unfolding get_data_unfold ext_def n_def stride_def v0_def ..
  have "\<exists>block. for_loop [m_scol ext .. m_ecol ext - 1] (get_data_column s ext n stride a b) v0
            = Inr block \<and> length block = nat (n * stride)"
  proof (rule for_loop_succeeds [where P = "\<lambda>v. length v = nat (n * stride)"])
    fix x and v :: "t_tscalar list"
    assume "x \<in> set [m_scol ext .. m_ecol ext - 1]" and lv: "length v = nat (n * stride)"
    then have x: "m_scol ext \<le> x" "x < m_scol ext + stride" by (simp_all add: stride_def)
    have sch: "nat (m_scol ext + stride) \<le> length (m_schema s)"
      using b schema by (simp add: stride_def)
    have "\<exists>v'. get_data_column s ext n stride a b x v = Inr v' \<and> length v' = length v"
      by (rule column_succeeds [OF x b(3) sch fills' n_def lv])
    then show "\<exists>v'. get_data_column s ext n stride a b x v = Inr v' \<and> length v' = nat (n * stride)"
      using lv by simp
  qed (simp add: v0_def)
  moreover have "0 \<le> n * stride" using b by (simp add: n_def stride_def)
  ultimately show ?thesis
    unfolding eq ext_def [symmetric] n_def [symmetric] stride_def [symmetric]
    by auto
qed

subsection \<open>Evaluation of the examples\<close>

lemmas eval_defs =
  get_data_def get_data_column_def get_data_cell_def
  get_data_rows_def get_data_rows_column_def get_data_pkeys_def get_data_pkeys_column_def
  get_data_cell_u_def sanitize_get_data_extents_def get_row_count_def get_column_count_def
  vec_at_idx_def vec_set_idx_def vec_at_def vec_set_def
  ctx1_def gstate1_def table1_def pkey_row1_def t_tscalar_default_def mknone_def
  Let_def upto.simps upt_rec eval_nat_numeral

lemmas delta_defs =
  get_row_delta_twice_def get_row_delta_def pkey_vector_def get_delta_pkeys_def
  clear_deltas_def ctx1_tracked_def notify_flattened_def add_delta_pkey_def
  get_interned_tscalar_def delta_keys_def

subsection \<open>notify\<close>

text \<open>
  An UPDATE tag is not one the richer \<open>notify\<close> classifies: its \<open>switch\<close> has a case
  for \<open>OP_INSERT\<close> and one for \<open>OP_DELETE\<close>, and a row tagged UPDATE takes the
  \<open>default\<close> and aborts, as every other tag does.
\<close>

theorem notify_update_counterexample:
  "notify ctx0 [\<lparr>psp_pkey = Scalar_int 1, psp_op = OP_UPDATE\<rparr>] [] [] [] [] [] =
     Inl (Abort ''Unexpected OP'')"
  by (simp add: notify_def notify_body_def)

text \<open>
  Claim C2, amended. When every row of the flattened table is tagged INSERT or DELETE,
  the richer \<open>notify\<close> returns and the Delta Key Set has gained the interned primary key
  of every row; when some row carries any other tag, UPDATE included, the call aborts
  with "Unexpected OP".
\<close>

theorem notify_recognised_ops:
  "(list_all recognised flattened \<longrightarrow>
      (\<exists>s'. notify s flattened d p c t e = Inr s' \<and>
            delta_keys s' =
              delta_keys s \<union> (\<lambda>row. get_interned_tscalar (psp_pkey row)) ` set flattened)) \<and>
   (\<not> list_all recognised flattened \<longrightarrow>
      notify s flattened d p c t e = Inl (Abort ''Unexpected OP''))"
  by (simp add: notify_def for_loop_notify_body delta_keys_track_rows [symmetric])
     (simp add: delta_keys_def)

theorem notify_recognised_ops_witness:
  "list_all recognised
     [\<lparr>psp_pkey = Scalar_int 1, psp_op = OP_INSERT\<rparr>,
      \<lparr>psp_pkey = Scalar_int 2, psp_op = OP_DELETE\<rparr>] \<and>
   (\<exists>s'. notify ctx0
       [\<lparr>psp_pkey = Scalar_int 1, psp_op = OP_INSERT\<rparr>,
        \<lparr>psp_pkey = Scalar_int 2, psp_op = OP_DELETE\<rparr>]
       [] [] [] [] [] = Inr s' \<and> delta_keys s' = {Scalar_int 1, Scalar_int 2}) \<and>
   \<not> list_all recognised [\<lparr>psp_pkey = Scalar_int 1, psp_op = OP_OTHER 7\<rparr>] \<and>
   notify ctx0 [\<lparr>psp_pkey = Scalar_int 1, psp_op = OP_OTHER 7\<rparr>] [] [] [] [] [] =
     Inl (Abort ''Unexpected OP'')"
  using notify_recognised_ops [of
      "[\<lparr>psp_pkey = Scalar_int 1, psp_op = OP_INSERT\<rparr>,
        \<lparr>psp_pkey = Scalar_int 2, psp_op = OP_DELETE\<rparr>]"
      ctx0 "[]" "[]" "[]" "[]" "[]"]
    notify_recognised_ops [of "[\<lparr>psp_pkey = Scalar_int 1, psp_op = OP_OTHER 7\<rparr>]"
      ctx0 "[]" "[]" "[]" "[]" "[]"]
  by (simp add: recognised_def get_interned_tscalar_def ctx0_def delta_keys_def insert_commute)

text \<open>
  Claim C3. When the flattened table holds a row tagged DELETE, \<open>has_deltas\<close> is true
  after the richer \<open>notify\<close> has returned: the flag is set from
  \<open>delete_encountered\<close> whatever the Delta Key Set holds. The call does not return only
  when a row carries a tag that is neither INSERT nor DELETE, which aborts the process.
\<close>

theorem notify_delete_has_deltas:
  "\<exists>row\<in>set flattened. psp_op row = OP_DELETE \<Longrightarrow>
   (case notify s flattened d p c t e of
      Inr s' \<Rightarrow> has_deltas s'
    | Inl err \<Rightarrow> err = Abort ''Unexpected OP'' \<and> \<not> list_all recognised flattened)"
  by (auto simp add: notify_def for_loop_notify_body has_deltas_def)

theorem notify_delete_has_deltas_witness:
  "(\<exists>row\<in>set [\<lparr>psp_pkey = Scalar_int 2, psp_op = OP_DELETE\<rparr>]. psp_op row = OP_DELETE) \<and>
   (\<exists>s'. notify ctx0 [\<lparr>psp_pkey = Scalar_int 2, psp_op = OP_DELETE\<rparr>] [] [] [] [] [] = Inr s' \<and>
      has_deltas s')"
  using notify_delete_has_deltas [of "[\<lparr>psp_pkey = Scalar_int 2, psp_op = OP_DELETE\<rparr>]"
      ctx0 "[]" "[]" "[]" "[]" "[]"]
  by (simp add: notify_def notify_body_def split: sum.splits)

text \<open>
  Claim C4. After \<open>notify(flattened)\<close>, the form for the first batch, the Delta Key Set
  holds what it held plus the interned primary key of every row of the flattened table,
  and \<open>has_deltas\<close> is true, also for a table without rows.
\<close>

theorem notify_flattened_tracks_all:
  "delta_keys (notify_flattened s flattened) =
     delta_keys s \<union> (\<lambda>row. get_interned_tscalar (psp_pkey row)) ` set flattened \<and>
   has_deltas (notify_flattened s flattened) \<and>
   has_deltas (notify_flattened s [])"
  using delta_keys_track_rows [of flattened "s\<lparr>m_has_delta := True\<rparr>"]
    has_delta_track_rows [of flattened "s\<lparr>m_has_delta := True\<rparr>"]
  by (simp add: notify_flattened_def track_rows_def has_deltas_def delta_keys_def)

theorem notify_flattened_tracks_all_witness:
  "delta_keys (notify_flattened ctx0
     [\<lparr>psp_pkey = Scalar_int 1, psp_op = OP_INSERT\<rparr>,
      \<lparr>psp_pkey = Scalar_int 2, psp_op = OP_INSERT\<rparr>]) = {Scalar_int 1, Scalar_int 2} \<and>
   \<not> has_deltas ctx0 \<and> has_deltas (notify_flattened ctx0 [])"
  using notify_flattened_tracks_all [of ctx0
     "[\<lparr>psp_pkey = Scalar_int 1, psp_op = OP_INSERT\<rparr>,
       \<lparr>psp_pkey = Scalar_int 2, psp_op = OP_INSERT\<rparr>]"]
  by (simp add: get_interned_tscalar_def ctx0_def delta_keys_def has_deltas_def insert_commute)

subsection \<open>get\_data\<close>

text \<open>
  Claim C5. For every start and end row and column, negative, inverted or beyond the
  bounds, \<open>get_data\<close> returns a block and no error: the sanitized extents give a number
  of rows in \<open>[0, row count]\<close> and a number of columns in \<open>[0, column count]\<close>, and the
  block has rows times columns cells. The master state is taken to have no more columns
  than the schema names and to return from \<open>read_column\<close>, for the rows of the call, a
  buffer that holds at least the sanitized number of rows.
\<close>

theorem get_data_sanitized:
  assumes "num_columns (m_gstate s) \<le> length (m_schema s)"
    and "read_column_keeps_buffer s start_row end_row"
  shows "\<exists>block ext.
      ext = sanitize_get_data_extents (get_row_count s) (get_column_count s)
              start_row end_row start_col end_col \<and>
      get_data s start_row end_row start_col end_col = Inr block \<and>
      0 \<le> m_erow ext - m_srow ext \<and> m_erow ext - m_srow ext \<le> get_row_count s \<and>
      0 \<le> m_ecol ext - m_scol ext \<and> m_ecol ext - m_scol ext \<le> get_column_count s \<and>
      int (length block) = (m_erow ext - m_srow ext) * (m_ecol ext - m_scol ext)"
proof -
  have "0 \<le> get_row_count s" "0 \<le> get_column_count s"
    by (simp_all add: get_row_count_def get_column_count_def)
  from sanitize_bounds [OF this, of start_row end_row start_col end_col]
    get_data_succeeds [OF assms, of start_col end_col]
  show ?thesis by auto
qed

theorem get_data_sanitized_witness:
  "num_columns (m_gstate ctx1) \<le> length (m_schema ctx1) \<and>
   read_column_keeps_buffer ctx1 (- 4) 7 \<and>
   sanitize_get_data_extents (get_row_count ctx1) (get_column_count ctx1) (- 4) 7 9 1 =
     \<lparr>m_srow = 0, m_erow = 2, m_scol = 2, m_ecol = 2\<rparr> \<and>
   get_data ctx1 (- 4) 7 9 1 = Inr [] \<and>
   read_column_keeps_buffer ctx1 0 7 \<and>
   get_data ctx1 0 7 (- 3) 9 =
     Inr [Scalar_str ''A'', Scalar_int 1, Scalar_str ''B'', Scalar_none] \<and>
   read_column_keeps_buffer ctx1 1 0 \<and>
   get_data ctx1 1 0 0 2 = Inr []"
proof -
  have h1: "num_columns (m_gstate ctx1) \<le> length (m_schema ctx1)"
    by (simp add: ctx1_def gstate1_def)
  have h2: "read_column_keeps_buffer ctx1 (- 4) 7" "read_column_keeps_buffer ctx1 0 7"
    "read_column_keeps_buffer ctx1 1 0"
    by (simp_all add: read_column_keeps_buffer_def sanitize_get_data_extents_def
        get_row_count_def get_column_count_def ctx1_def gstate1_def)
  have e1: "sanitize_get_data_extents (get_row_count ctx1) (get_column_count ctx1) (- 4) 7 9 1 =
     \<lparr>m_srow = 0, m_erow = 2, m_scol = 2, m_ecol = 2\<rparr>"
    by (simp add: eval_defs)
  have e2: "get_data ctx1 (- 4) 7 9 1 = Inr []"
    by (simp add: eval_defs)
  have e3: "get_data ctx1 0 7 (- 3) 9 =
     Inr [Scalar_str ''A'', Scalar_int 1, Scalar_str ''B'', Scalar_none]"
    by (simp add: eval_defs)
  have e4: "get_data ctx1 1 0 0 2 = Inr []"
    by (simp add: eval_defs)
  from get_data_sanitized [OF h1 h2(1), of 9 1] h1 h2 e1 e2 e3 e4
  show ?thesis by blast
qed

text \<open>
  Claim C6. Every cell of a block returned by one of the three forms of \<open>get_data\<close>
  holds, in row-major position, the value that \<open>read_column\<close> gave for its row and
  column if that value is valid and the \<open>none\<close> scalar if it is not; so every cell is
  a valid value or \<open>none\<close>, and the unset sentinel never reaches the caller.
\<close>

theorem get_data_cells_normalised:
  "(get_data s start_row end_row start_col end_col = Inr block \<longrightarrow>
      (let ext = sanitize_get_data_extents (get_row_count s) (get_column_count s)
                   start_row end_row start_col end_col;
           n = nat (m_erow ext - m_srow ext);
           stride = nat (m_ecol ext - m_scol ext)
       in \<forall>ci < stride. \<forall>ri < n.
            block ! (ri * stride + ci) =
              stored (read_column_range (m_gstate s) (m_schema s ! (nat (m_scol ext) + ci))
                        start_row end_row (replicate n t_tscalar_default) ! ri)) \<and>
      (\<forall>v\<in>set block. normalised v \<and> v \<noteq> Scalar_clear)) \<and>
   (get_data_rows s rows = Inr block \<longrightarrow>
      (\<forall>c < num_columns (m_gstate s). \<forall>r < length rows.
         block ! (r * num_columns (m_gstate s) + c) =
           stored (read_column_rows (m_gstate s) (m_schema s ! c) rows
                     (replicate (length rows) t_tscalar_default) ! r)) \<and>
      (\<forall>v\<in>set block. normalised v \<and> v \<noteq> Scalar_clear)) \<and>
   (get_data_pkeys s pkeys = Inr block \<longrightarrow>
      (\<forall>c < num_columns (m_gstate s). \<forall>r < length pkeys.
         block ! (r * num_columns (m_gstate s) + c) =
           stored (read_column_pkeys (m_gstate s) (m_schema s ! c) pkeys
                     (replicate (length pkeys) t_tscalar_default) ! r)) \<and>
      (\<forall>v\<in>set block. normalised v \<and> v \<noteq> Scalar_clear))"
proof (intro conjI impI)
  assume a: "get_data s start_row end_row start_col end_col = Inr block"
  define ext where "ext = sanitize_get_data_extents (get_row_count s) (get_column_count s)
                   start_row end_row start_col end_col"
  note c = get_data_cells [OF a ext_def refl refl]
  from c show "let ext = sanitize_get_data_extents (get_row_count s) (get_column_count s)
                   start_row end_row start_col end_col;
           n = nat (m_erow ext - m_srow ext);
           stride = nat (m_ecol ext - m_scol ext)
       in \<forall>ci < stride. \<forall>ri < n.
            block ! (ri * stride + ci) =
              stored (read_column_range (m_gstate s) (m_schema s ! (nat (m_scol ext) + ci))
                        start_row end_row (replicate n t_tscalar_default) ! ri)"
    unfolding Let_def ext_def by blast
  from c show "\<forall>v\<in>set block. normalised v \<and> v \<noteq> Scalar_clear"
    by (intro block_cells_normalised [where n = "nat (m_erow ext - m_srow ext)"
          and stride = "nat (m_ecol ext - m_scol ext)"
          and cell = "\<lambda>ci ri. read_column_range (m_gstate s)
              (m_schema s ! (nat (m_scol ext) + ci)) start_row end_row
              (replicate (nat (m_erow ext - m_srow ext)) t_tscalar_default) ! ri"]) simp_all
next
  assume a: "get_data_rows s rows = Inr block"
  note c = get_data_rows_cells [OF a]
  from c show "\<forall>c < num_columns (m_gstate s). \<forall>r < length rows.
         block ! (r * num_columns (m_gstate s) + c) =
           stored (read_column_rows (m_gstate s) (m_schema s ! c) rows
                     (replicate (length rows) t_tscalar_default) ! r)"
    by blast
  from c show "\<forall>v\<in>set block. normalised v \<and> v \<noteq> Scalar_clear"
    by (intro block_cells_normalised [where n = "length rows"
          and stride = "num_columns (m_gstate s)"
          and cell = "\<lambda>c r. read_column_rows (m_gstate s) (m_schema s ! c) rows
                     (replicate (length rows) t_tscalar_default) ! r"]) simp_all
next
  assume a: "get_data_pkeys s pkeys = Inr block"
  note c = get_data_pkeys_cells [OF a]
  from c show "\<forall>c < num_columns (m_gstate s). \<forall>r < length pkeys.
         block ! (r * num_columns (m_gstate s) + c) =
           stored (read_column_pkeys (m_gstate s) (m_schema s ! c) pkeys
                     (replicate (length pkeys) t_tscalar_default) ! r)"
    by blast
  from c show "\<forall>v\<in>set block. normalised v \<and> v \<noteq> Scalar_clear"
    by (intro block_cells_normalised [where n = "length pkeys"
          and stride = "num_columns (m_gstate s)"
          and cell = "\<lambda>c r. read_column_pkeys (m_gstate s) (m_schema s ! c) pkeys
                     (replicate (length pkeys) t_tscalar_default) ! r"]) simp_all
qed

theorem get_data_cells_normalised_witness:
  "get_data ctx1 0 7 (- 3) 9 =
     Inr [Scalar_str ''A'', Scalar_int 1, Scalar_str ''B'', Scalar_none] \<and>
   read_column_range (m_gstate ctx1) ''v'' 0 7 (replicate 2 t_tscalar_default) ! 1 = Scalar_clear \<and>
   get_data_rows ctx1 [1, 0] =
     Inr [Scalar_str ''B'', Scalar_none, Scalar_str ''A'', Scalar_int 1] \<and>
   get_data_pkeys ctx1 [Scalar_str ''B'', Scalar_int 5] =
     Inr [Scalar_str ''B'', Scalar_none, Scalar_none, Scalar_none] \<and>
   list_all (\<lambda>v. normalised v \<and> v \<noteq> Scalar_clear)
     [Scalar_str ''A'', Scalar_int 1, Scalar_str ''B'', Scalar_none]"
proof -
  have e1: "get_data ctx1 0 7 (- 3) 9 =
     Inr [Scalar_str ''A'', Scalar_int 1, Scalar_str ''B'', Scalar_none]"
    by (simp add: eval_defs)
  have e2: "get_data_rows ctx1 [1, 0] =
     Inr [Scalar_str ''B'', Scalar_none, Scalar_str ''A'', Scalar_int 1]"
    by (simp add: eval_defs)
  have e3: "get_data_pkeys ctx1 [Scalar_str ''B'', Scalar_int 5] =
     Inr [Scalar_str ''B'', Scalar_none, Scalar_none, Scalar_none]"
    by (simp add: eval_defs)
  have e4: "read_column_range (m_gstate ctx1) ''v'' 0 7 (replicate 2 t_tscalar_default) ! 1
      = Scalar_clear"
    by (simp add: eval_defs)
  from get_data_cells_normalised [of ctx1 0 7 "- 3" 9
      "[Scalar_str ''A'', Scalar_int 1, Scalar_str ''B'', Scalar_none]" "[]" "[]"] e1 e2 e3 e4
  show ?thesis by (simp add: list_all_iff)
qed

subsection \<open>get\_row\_delta\<close>

text \<open>
  \<open>clear_deltas\<close> resets the has-delta flag and nothing else: after a first
  \<open>get_row_delta\<close> the key \<open>A\<close> is still in the Delta Key Set, and a second call
  returns one row again.
\<close>

theorem get_row_delta_twice_counterexample:
  "map_sum id (fst \<circ> snd) (get_row_delta_twice ctx1_tracked) =
     Inr \<lparr>rd_rows_changed = False, rd_num_rows = 1,
          rd_data = [Scalar_str ''A'', Scalar_int 1]\<rparr> \<and>
   map_sum id (delta_keys \<circ> snd \<circ> snd) (get_row_delta_twice ctx1_tracked) =
     Inr {Scalar_str ''A''}"
  by (simp add: delta_defs eval_defs)

text \<open>
  Claim C1, amended. \<open>get_row_delta\<close> returns a delta built from the rows-changed flag
  and a copy of the Delta Key Set, with the row data that \<open>get_data\<close> fetches for
  those keys; after the call the has-delta flag is cleared, while the Delta Key Set and
  the rows-changed flag are as they were (it is \<open>step_begin\<close> that empties the set), so
  a second call with no \<open>notify\<close> and no \<open>step_begin\<close> in between returns the same
  delta again.
\<close>

theorem get_row_delta_keeps_keys:
  assumes "get_row_delta s = Inr (rd, s')"
  shows "rd_rows_changed rd = m_rows_changed s \<and>
         rd_num_rows rd = length (pkey_vector s) \<and>
         set (pkey_vector s) = delta_keys s \<and>
         get_data_pkeys s (pkey_vector s) = Inr (rd_data rd) \<and>
         \<not> has_deltas s' \<and>
         m_delta_pkeys s' = m_delta_pkeys s \<and>
         m_rows_changed s' = m_rows_changed s \<and>
         get_row_delta s' = Inr (rd, s')"
proof -
  from assms obtain data where
    d: "get_data_pkeys s (pkey_vector s) = Inr data"
    and rd: "rd = \<lparr>rd_rows_changed = m_rows_changed s,
                   rd_num_rows = length (pkey_vector s), rd_data = data\<rparr>"
    and s': "s' = clear_deltas s"
    by (auto simp: get_row_delta_def Let_def split: sum.splits)
  have "get_data_pkeys_column s' = get_data_pkeys_column s"
    by (intro ext) (simp add: s' clear_deltas_def get_data_pkeys_column_def split: sum.splits)
  then have same: "get_data_pkeys s' ks = get_data_pkeys s ks" for ks
    by (simp add: get_data_pkeys_def get_column_count_def) (simp add: s' clear_deltas_def)
  have pv: "pkey_vector s' = pkey_vector s"
    by (simp add: s' clear_deltas_def pkey_vector_def get_delta_pkeys_def)
  have again: "get_row_delta s' = Inr (rd, s')"
    by (simp add: get_row_delta_def pv same d rd) (simp add: s' clear_deltas_def)
  show ?thesis
    using d rd again
    by (simp add: s' clear_deltas_def has_deltas_def pkey_vector_def get_delta_pkeys_def
        delta_keys_def)
qed

theorem get_row_delta_keeps_keys_witness:
  "get_row_delta ctx1_tracked =
     Inr (\<lparr>rd_rows_changed = False, rd_num_rows = 1,
           rd_data = [Scalar_str ''A'', Scalar_int 1]\<rparr>,
          ctx1_tracked\<lparr>m_has_delta := False\<rparr>) \<and>
   has_deltas ctx1_tracked \<and>
   \<not> has_deltas (ctx1_tracked\<lparr>m_has_delta := False\<rparr>) \<and>
   delta_keys (ctx1_tracked\<lparr>m_has_delta := False\<rparr>) = {Scalar_str ''A''} \<and>
   get_row_delta (ctx1_tracked\<lparr>m_has_delta := False\<rparr>) =
     Inr (\<lparr>rd_rows_changed = False, rd_num_rows = 1,
           rd_data = [Scalar_str ''A'', Scalar_int 1]\<rparr>,
          ctx1_tracked\<lparr>m_has_delta := False\<rparr>)"
proof -
  have e: "get_row_delta ctx1_tracked =
     Inr (\<lparr>rd_rows_changed = False, rd_num_rows = 1,
           rd_data = [Scalar_str ''A'', Scalar_int 1]\<rparr>,
          ctx1_tracked\<lparr>m_has_delta := False\<rparr>)"
    by (simp add: delta_defs eval_defs)
  have k: "delta_keys ctx1_tracked = {Scalar_str ''A''}" "has_deltas ctx1_tracked"
    by (simp_all add: delta_defs has_deltas_def ctx1_def)
  from get_row_delta_keeps_keys [OF e] e k show ?thesis
    by (simp add: delta_keys_def)
qed

text \<open>The keys an update cycle leaves in the Delta Key Set.\<close>

lemma count_list_distinct: "distinct xs \<Longrightarrow> x \<in> set xs \<Longrightarrow> count_list xs x = 1"
  by (induction xs) auto

lemma apply_notify_keys:
  assumes "apply_notify call s = Inr s'"
  shows "delta_keys s' = delta_keys s \<union> call_keys call"
proof (cases call)
  case (Notify_first fl)
  have "notify_flattened s fl = track_rows fl (s\<lparr>m_has_delta := True\<rparr>)"
    by (simp add: notify_flattened_def track_rows_def)
  with assms Notify_first show ?thesis
    using delta_keys_track_rows [of fl "s\<lparr>m_has_delta := True\<rparr>"]
    by (auto simp: delta_keys_def)
next
  case (Notify_update fl)
  with assms show ?thesis
    using delta_keys_track_rows [of fl s]
    by (auto simp: notify_def for_loop_notify_body delta_keys_def split: if_splits)
qed

lemma for_loop_apply_notify_keys:
  "for_loop calls apply_notify s = Inr s' \<Longrightarrow>
   delta_keys s' = delta_keys s \<union> \<Union> (call_keys ` set calls)"
proof (induction calls arbitrary: s)
  case Nil
  then show ?case by simp
next
  case (Cons call calls)
  from Cons.prems obtain s1 where a: "apply_notify call s = Inr s1"
    and r: "for_loop calls apply_notify s1 = Inr s'"
    by (auto split: sum.splits)
  show ?case using Cons.IH [OF r] apply_notify_keys [OF a] by auto
qed

text \<open>The form of \<open>get_data\<close> that takes primary keys stays inside its buffers.\<close>

lemma cell_u_succeeds:
  assumes "r < length od" and "r * stride + c < length v"
  shows "\<exists>v'. get_data_cell_u stride od c r v = Inr v' \<and> length v' = length v"
  using assms by (simp add: get_data_cell_u_def vec_at_def vec_set_def Let_def)

lemma row_major_bound:
  fixes r c n stride :: nat
  assumes "r < n" "c < stride"
  shows "r * stride + c < n * stride"
proof -
  have "r * stride + c < r * stride + stride" using assms by simp
  also have "\<dots> = Suc r * stride" by simp
  also have "\<dots> \<le> n * stride" using assms by (intro mult_le_mono1) simp
  finally show ?thesis .
qed

lemma pkeys_column_succeeds:
  assumes c: "c < stride" and schema: "stride \<le> length (m_schema s)"
    and fills: "read_column_pkeys_keeps_buffer s pkeys"
    and len: "length v = length pkeys * stride"
  shows "\<exists>v'. get_data_pkeys_column s stride pkeys c v = Inr v' \<and> length v' = length v"
proof -
  have in_schema: "c < length (m_schema s)" using c schema by simp
  have col: "vec_at (m_schema s) c = Inr (m_schema s ! c)"
    using in_schema by (simp add: vec_at_def)
  define od where "od = read_column_pkeys (m_gstate s) (m_schema s ! c) pkeys
                          (replicate (length pkeys) t_tscalar_default)"
  have "m_schema s ! c \<in> set (m_schema s)" using in_schema by simp
  then have od: "length pkeys \<le> length od"
    using fills by (simp add: od_def read_column_pkeys_keeps_buffer_def list_all_iff)
  have "\<exists>v'. for_loop [0..<length pkeys] (get_data_cell_u stride od c) v = Inr v' \<and>
           length v' = length v"
  proof (rule for_loop_succeeds [where P = "\<lambda>w. length w = length v"])
    fix r and w :: "t_tscalar list"
    assume "r \<in> set [0..<length pkeys]" and lw: "length w = length v"
    then have r: "r < length pkeys" by simp
    have "\<exists>w'. get_data_cell_u stride od c r w = Inr w' \<and> length w' = length w"
    proof (rule cell_u_succeeds)
      show "r < length od" using r od by simp
      show "r * stride + c < length w" using row_major_bound [OF r c] lw len by simp
    qed
    then show "\<exists>w'. get_data_cell_u stride od c r w = Inr w' \<and> length w' = length v"
      using lw by simp
  qed simp
  then show ?thesis by (simp add: get_data_pkeys_column_def col od_def Let_def)
qed

lemma get_data_pkeys_succeeds:
  assumes schema: "num_columns (m_gstate s) \<le> length (m_schema s)"
    and fills: "read_column_pkeys_keeps_buffer s pkeys"
  shows "\<exists>block. get_data_pkeys s pkeys = Inr block \<and>
           length block = length pkeys * num_columns (m_gstate s)"
proof -
  let ?stride = "num_columns (m_gstate s)"
  have "\<exists>block. for_loop [0..<?stride] (get_data_pkeys_column s ?stride pkeys)
            (replicate (length pkeys * ?stride) t_tscalar_default) = Inr block \<and>
          length block = length pkeys * ?stride"
  proof (rule for_loop_succeeds [where P = "\<lambda>w. length w = length pkeys * ?stride"])
    fix c and w :: "t_tscalar list"
    assume "c \<in> set [0..<?stride]" and lw: "length w = length pkeys * ?stride"
    then have c: "c < ?stride" by simp
    from pkeys_column_succeeds [OF c schema fills lw]
    show "\<exists>w'. get_data_pkeys_column s ?stride pkeys c w = Inr w' \<and>
            length w' = length pkeys * ?stride"
      using lw by simp
  qed simp
  then show ?thesis by (simp add: get_data_pkeys_def get_column_count_def Let_def)
qed

text \<open>\<open>notify\<close> leaves the master state and the schema alone.\<close>

lemma track_rows_frame:
  "m_gstate (track_rows fl s) = m_gstate s \<and> m_schema (track_rows fl s) = m_schema s"
  by (induction fl arbitrary: s) (simp_all add: track_rows_def add_delta_pkey_def)

lemma apply_notify_frame:
  assumes "apply_notify call s = Inr s'"
  shows "m_gstate s' = m_gstate s \<and> m_schema s' = m_schema s"
proof (cases call)
  case (Notify_first fl)
  have "notify_flattened s fl = track_rows fl (s\<lparr>m_has_delta := True\<rparr>)"
    by (simp add: notify_flattened_def track_rows_def)
  with assms Notify_first show ?thesis
    using track_rows_frame [of fl "s\<lparr>m_has_delta := True\<rparr>"] by auto
next
  case (Notify_update fl)
  with assms show ?thesis
    using track_rows_frame [of fl s]
    by (auto simp: notify_def for_loop_notify_body split: if_splits)
qed

lemma for_loop_apply_notify_frame:
  "for_loop calls apply_notify s = Inr s' \<Longrightarrow>
   m_gstate s' = m_gstate s \<and> m_schema s' = m_schema s"
proof (induction calls arbitrary: s)
  case Nil
  then show ?case by simp
next
  case (Cons call calls)
  from Cons.prems obtain s1 where a: "apply_notify call s = Inr s1"
    and r: "for_loop calls apply_notify s1 = Inr s'"
    by (auto split: sum.splits)
  show ?case using Cons.IH [OF r] apply_notify_frame [OF a] by simp
qed

text \<open>
  Claim C7. Whatever \<open>notify\<close> calls an update cycle makes, and in whatever order the
  keys arrive, \<open>get_row_delta\<close> then returns a delta with one row for each distinct key
  that the Delta Key Set held or that a call added, however often it was added: the key
  sequence it copies from the set holds each of these keys exactly once and no other,
  and the row data is what \<open>get_data\<close> fetches for that sequence. The master state is
  taken to have no more columns than the schema names and to return from
  \<open>read_column\<close> a buffer with a cell for each key.
\<close>

theorem delta_keys_collapse_duplicates:
  assumes run: "for_loop calls apply_notify s = Inr s'"
    and schema: "num_columns (m_gstate s) \<le> length (m_schema s)"
    and fills: "read_column_pkeys_keeps_buffer s (pkey_vector s')"
  shows "\<exists>data.
      get_row_delta s' =
        Inr (\<lparr>rd_rows_changed = m_rows_changed s',
              rd_num_rows = card (delta_keys s \<union> \<Union> (call_keys ` set calls)),
              rd_data = data\<rparr>,
             clear_deltas s') \<and>
      get_data_pkeys s' (pkey_vector s') = Inr data \<and>
      length data =
        card (delta_keys s \<union> \<Union> (call_keys ` set calls)) * num_columns (m_gstate s) \<and>
      set (pkey_vector s') = delta_keys s \<union> \<Union> (call_keys ` set calls) \<and>
      (\<forall>k\<in>delta_keys s \<union> \<Union> (call_keys ` set calls). count_list (pkey_vector s') k = 1)"
proof -
  let ?K = "delta_keys s \<union> \<Union> (call_keys ` set calls)"
  have d: "distinct (pkey_vector s')" and k: "set (pkey_vector s') = delta_keys s'"
    by (simp_all add: pkey_vector_def get_delta_pkeys_def delta_keys_def)
  have keys: "delta_keys s' = ?K" by (rule for_loop_apply_notify_keys [OF run])
  have n: "length (pkey_vector s') = card ?K"
    using distinct_card [OF d] k keys by simp
  have frame: "m_gstate s' = m_gstate s" "m_schema s' = m_schema s"
    using for_loop_apply_notify_frame [OF run] by simp_all
  have schema': "num_columns (m_gstate s') \<le> length (m_schema s')"
    using schema frame by simp
  have fills': "read_column_pkeys_keeps_buffer s' (pkey_vector s')"
    using fills frame by (simp add: read_column_pkeys_keeps_buffer_def)
  from get_data_pkeys_succeeds [OF schema' fills']
  obtain data where data: "get_data_pkeys s' (pkey_vector s') = Inr data"
    and len: "length data = length (pkey_vector s') * num_columns (m_gstate s')"
    by blast
  have "get_row_delta s' =
        Inr (\<lparr>rd_rows_changed = m_rows_changed s', rd_num_rows = card ?K, rd_data = data\<rparr>,
             clear_deltas s')"
    by (simp add: get_row_delta_def Let_def data n)
  moreover have "\<forall>k\<in>?K. count_list (pkey_vector s') k = 1"
    using count_list_distinct [OF d] k keys by simp
  ultimately show ?thesis using data len n k keys frame by auto
qed

theorem delta_keys_collapse_duplicates_witness:
  "for_loop
     [Notify_first [\<lparr>psp_pkey = Scalar_str ''A'', psp_op = OP_INSERT\<rparr>,
                    \<lparr>psp_pkey = Scalar_str ''B'', psp_op = OP_INSERT\<rparr>,
                    \<lparr>psp_pkey = Scalar_str ''A'', psp_op = OP_INSERT\<rparr>],
      Notify_update [\<lparr>psp_pkey = Scalar_str ''B'', psp_op = OP_INSERT\<rparr>,
                     \<lparr>psp_pkey = Scalar_str ''A'', psp_op = OP_DELETE\<rparr>]]
     apply_notify ctx1 =
   Inr (ctx1\<lparr>m_has_delta := True,
             m_delta_pkeys :=
               Dlist.insert (Scalar_str ''B'') (Dlist.insert (Scalar_str ''A'') Dlist.empty)\<rparr>) \<and>
   num_columns (m_gstate ctx1) \<le> length (m_schema ctx1) \<and>
   read_column_pkeys_keeps_buffer ctx1 [Scalar_str ''B'', Scalar_str ''A''] \<and>
   pkey_vector (ctx1\<lparr>m_has_delta := True,
             m_delta_pkeys :=
               Dlist.insert (Scalar_str ''B'') (Dlist.insert (Scalar_str ''A'') Dlist.empty)\<rparr>)
     = [Scalar_str ''B'', Scalar_str ''A''] \<and>
   map_sum id fst (get_row_delta (ctx1\<lparr>m_has_delta := True,
             m_delta_pkeys :=
               Dlist.insert (Scalar_str ''B'') (Dlist.insert (Scalar_str ''A'') Dlist.empty)\<rparr>))
     = Inr \<lparr>rd_rows_changed = False, rd_num_rows = 2,
            rd_data = [Scalar_str ''B'', Scalar_none, Scalar_str ''A'', Scalar_int 1]\<rparr>"
proof -
  let ?calls = "[Notify_first [\<lparr>psp_pkey = Scalar_str ''A'', psp_op = OP_INSERT\<rparr>,
                    \<lparr>psp_pkey = Scalar_str ''B'', psp_op = OP_INSERT\<rparr>,
                    \<lparr>psp_pkey = Scalar_str ''A'', psp_op = OP_INSERT\<rparr>],
      Notify_update [\<lparr>psp_pkey = Scalar_str ''B'', psp_op = OP_INSERT\<rparr>,
                     \<lparr>psp_pkey = Scalar_str ''A'', psp_op = OP_DELETE\<rparr>]]"
  let ?s' = "ctx1\<lparr>m_has_delta := True,
             m_delta_pkeys :=
               Dlist.insert (Scalar_str ''B'') (Dlist.insert (Scalar_str ''A'') Dlist.empty)\<rparr>"
  have e: "for_loop ?calls apply_notify ctx1 = Inr ?s'"
    by (simp add: notify_flattened_def notify_def notify_body_def add_delta_pkey_def
        get_interned_tscalar_def ctx1_def dlist_eq_iff Dlist.length_def)
  have v: "pkey_vector ?s' = [Scalar_str ''B'', Scalar_str ''A'']"
    by (simp add: pkey_vector_def get_delta_pkeys_def)
  have h1: "num_columns (m_gstate ctx1) \<le> length (m_schema ctx1)"
    by (simp add: ctx1_def gstate1_def)
  have h2: "read_column_pkeys_keeps_buffer ctx1 [Scalar_str ''B'', Scalar_str ''A'']"
    by (simp add: read_column_pkeys_keeps_buffer_def ctx1_def gstate1_def)
  have h2': "read_column_pkeys_keeps_buffer ctx1 (pkey_vector ?s')"
    using h2 by (simp only: v)
  have c: "card (delta_keys ctx1 \<union> \<Union> (call_keys ` set ?calls)) = 2"
    by (simp add: delta_keys_def ctx1_def get_interned_tscalar_def card_insert_if)
  from delta_keys_collapse_duplicates [OF e h1 h2']
  obtain data where g: "get_row_delta ?s' =
        Inr (\<lparr>rd_rows_changed = m_rows_changed ?s',
              rd_num_rows = card (delta_keys ctx1 \<union> \<Union> (call_keys ` set ?calls)),
              rd_data = data\<rparr>, clear_deltas ?s')"
    and d: "get_data_pkeys ?s' (pkey_vector ?s') = Inr data"
    by blast
  have "get_data_pkeys ?s' [Scalar_str ''B'', Scalar_str ''A''] =
      Inr [Scalar_str ''B'', Scalar_none, Scalar_str ''A'', Scalar_int 1]"
    by (simp add: eval_defs)
  with d v have "data = [Scalar_str ''B'', Scalar_none, Scalar_str ''A'', Scalar_int 1]"
    by simp
  with g c have "map_sum id fst (get_row_delta ?s') =
      Inr \<lparr>rd_rows_changed = False, rd_num_rows = 2,
           rd_data = [Scalar_str ''B'', Scalar_none, Scalar_str ''A'', Scalar_int 1]\<rparr>"
    by (simp add: ctx1_def)
  with e h1 h2 v show ?thesis by simp
qed

section \<open>Properties of the transport\<close>

subsection \<open>Hosting\<close>

text \<open>
  Claim C9. Hosting a table or a view under a name that its cache already holds throws
  the error whose message is the quoted name followed by "already exists", and leaves
  the manager, and so both caches and the object hosted under that name, as they were.
\<close>

theorem host_existing_name_rejected:
  "(tables m name \<noteq> None \<longrightarrow>
      host_table name input m =
        (Inl (Error ([CHR 0x22] @ name @ [CHR 0x22] @ '' already exists'')), m)) \<and>
   (views m name \<noteq> None \<longrightarrow>
      host_view name input m =
        (Inl (Error ([CHR 0x22] @ name @ [CHR 0x22] @ '' already exists'')), m))"
  by (simp add: host_table_def host_view_def host_def cache_of_def)

theorem host_existing_name_rejected_witness:
  "tables (snd (host_table ''superstore'' superstore WebSocketManager_new)) ''superstore'' =
     Some (superstore\<lparr>on_delete_callbacks := [(Tables, ''superstore'')]\<rparr>) \<and>
   fst (host_table ''superstore'' (superstore\<lparr>label := ''other''\<rparr>)
         (snd (host_table ''superstore'' superstore WebSocketManager_new))) =
     Inl (Error ([CHR 0x22] @ ''superstore'' @ [CHR 0x22] @ '' already exists'')) \<and>
   snd (host_table ''superstore'' (superstore\<lparr>label := ''other''\<rparr>)
         (snd (host_table ''superstore'' superstore WebSocketManager_new))) =
     snd (host_table ''superstore'' superstore WebSocketManager_new)"
proof -
  have t: "tables (snd (host_table ''superstore'' superstore WebSocketManager_new)) ''superstore'' =
     Some (superstore\<lparr>on_delete_callbacks := [(Tables, ''superstore'')]\<rparr>)"
    by (simp add: host_table_def host_def cache_of_def cache_update_def WebSocketManager_new_def
        superstore_def)
  then have "tables (snd (host_table ''superstore'' superstore WebSocketManager_new)) ''superstore''
      \<noteq> None" by simp
  with host_existing_name_rejected
    [of "snd (host_table ''superstore'' superstore WebSocketManager_new)" "''superstore''"
      "superstore\<lparr>label := ''other''\<rparr>"] t
  show ?thesis by simp
qed

subsection \<open>Chunked binaries\<close>













text \<open>
  The client keeps the id of the request as its flag for a pending binary and tests it
  for truth. Under the id 0 the flag reads as not set: the chunk that follows the
  message is parsed as JSON, which throws, and no binary is handed over.
\<close>

lemma chunked_transport_id_zero:
  "receive WebSocketClient_new
     [Json (arrow_msg\<lparr>msg_id := Some 0, binary_length := Some 3\<rparr>), ArrayBuffer [1, 2, 3]] =
     ([Inr [], Inl SyntaxError],
      WebSocketClient_new\<lparr>pending_binary := Some 0, pending_binary_length := Some 3,
        full_binary := Some [0, 0, 0]\<rparr>)"
  by (simp add: onmessage_def truthy_def WebSocketClient_new_def arrow_msg_def eval_nat_numeral)

text \<open>
  The chunks after the first go out from timers, and the client takes every frame for a
  chunk while a binary is pending. A message posted on the same socket before the last
  timer has run lands between two chunks: the client counts it as a chunk of no length,
  its running total is no longer a number, and the binary is never handed over.
\<close>

lemma chunked_transport_interleaved:
  "outbox (sockets interleaved 0) =
     [Json (arrow_msg\<lparr>msg_id := Some 7, binary_length := Some 3\<rparr>), ArrayBuffer [1, 2],
      Json (arrow_msg\<lparr>msg_id := Some 7\<rparr>), ArrayBuffer [3]] \<and>
   timers interleaved = [] \<and>
   receive WebSocketClient_new (outbox (sockets interleaved 0)) =
     ([Inr [], Inr [], Inr [], Inr []],
      WebSocketClient_new\<lparr>pending_binary := Some 7, pending_binary_length := Some 3,
        full_binary := Some [3, 2, 0], total_chunk_length := None\<rparr>)"
proof -
  have o: "outbox (sockets interleaved 0) =
     [Json (arrow_msg\<lparr>msg_id := Some 7, binary_length := Some 3\<rparr>), ArrayBuffer [1, 2],
      Json (arrow_msg\<lparr>msg_id := Some 7\<rparr>), ArrayBuffer [3]]"
    and t: "timers interleaved = []"
    by (simp_all add: interleaved_def post_def post_chunked_def run_timer_def ws_send_def
        sent_more_def manager2_def server0_def WebSocketManager_new_def arrow_msg_def
        slice_buffer_def Let_def numeral_2_eq_2)
  show ?thesis
    unfolding o using t
    by (simp add: onmessage_def truthy_def WebSocketClient_new_def arrow_msg_def
        typed_array_set_def Let_def eval_nat_numeral)
qed



end
